theory Spec2Isabelle
  imports Main "HOL-Library.Char_ord"
begin

section \<open>Python values used by populate\_db.py\<close>

text \<open>
  Python integers are unbounded: they are modelled as \<open>int\<close>. Strings are
  \<open>string\<close>; every string the seeder builds itself is ASCII.
\<close>

fun str_nat :: "nat \<Rightarrow> string" where
  "str_nat n =
     (if n < 10 then [char_of (48 + n)]
      else str_nat (n div 10) @ [char_of (48 + n mod 10)])"

declare str_nat.simps [simp del]

text \<open>\<open>str(n)\<close> of an integer: decimal digits, a minus sign first when negative.\<close>

definition str :: "int \<Rightarrow> string" where
  "str n = (if n < 0 then CHR ''-'' # str_nat (nat (- n)) else str_nat (nat n))"

section \<open>The synthetic-data source (Faker)\<close>

text \<open>
  \<open>fake = Faker()\<close> is a process-wide object whose answers are drawn from a seeded
  pseudo-random stream. The stream is an arbitrary function \<open>draws\<close>, read at
  \<open>cursor\<close>; each primitive maps the raw draw onto its documented range, so every
  answer Faker can give is given for some stream. \<open>generated\<close> is the memory of
  \<open>fake.unique\<close>.
\<close>

record faker =
  draws :: "nat \<Rightarrow> nat"
  cursor :: nat
  generated :: "string list"

definition next_draw :: "faker \<Rightarrow> nat \<times> faker" where
  "next_draw f = (draws f (cursor f), f\<lparr>cursor := Suc (cursor f)\<rparr>)"

text \<open>\<open>fake.random_uppercase_letter()\<close>: one of \<open>A\<close>..\<open>Z\<close>.\<close>

definition random_uppercase_letter :: "faker \<Rightarrow> char \<times> faker" where
  "random_uppercase_letter f =
     (let (r, f') = next_draw f in (char_of (65 + r mod 26), f'))"

text \<open>
  \<open>fake.random_number(digits=d, fix_len=b)\<close>: with \<open>fix_len\<close> an integer of exactly
  \<open>d\<close> digits (\<open>10^(d-1)\<close> .. \<open>10^d - 1\<close>), without it one of \<open>0\<close> .. \<open>10^d - 1\<close>.
\<close>

definition random_number :: "nat \<Rightarrow> bool \<Rightarrow> faker \<Rightarrow> int \<times> faker" where
  "random_number d fix_len f =
     (let (r, f') = next_draw f in
        (if fix_len then int (10 ^ (d - 1) + r mod (10 ^ d - 10 ^ (d - 1)))
         else int (r mod 10 ^ d), f'))"

section \<open>Identifier generators\<close>

text \<open>
  The body of the \<open>for i, char in enumerate(base)\<close> loop of
  \<open>generate_container_number\<close>: the value appended to \<open>char_values\<close>. A character
  that is neither a capital letter nor a digit keeps its code point.
\<close>

definition char_value :: "nat \<times> char \<Rightarrow> int" where
  "char_value ic =
     (let i = fst ic; num = (of_char (snd ic) :: int);
          num = (if 65 \<le> num \<and> num \<le> 90 then num - 55
                 else if 48 \<le> num \<and> num \<le> 57 then num - 48
                 else num)
      in num * 2 ^ i)"

definition check_digit :: "string \<Rightarrow> int" where
  "check_digit base =
     (let char_values = map char_value (enumerate 0 base);
          total = sum_list char_values
      in total mod 11 mod 10)"

definition generate_container_number :: "faker \<Rightarrow> string \<times> faker" where
  "generate_container_number f0 =
     (let (l1, f1) = random_uppercase_letter f0;
          (l2, f2) = random_uppercase_letter f1;
          (l3, f3) = random_uppercase_letter f2;
          owner_code = [l1] @ [l2] @ [l3];
          product_group = ''U'';
          (serial_number, f4) = random_number 6 True f3;
          base = owner_code @ product_group @ str serial_number
      in (base @ str (check_digit base), f4))"

text \<open>
  The check digit as the specification words it, for comparison with the code: letters
  \<open>A\<close>..\<open>Z\<close> are worth their code point minus 55, digits their face value (no other
  character has a value); the value at position \<open>i\<close> is multiplied by \<open>2^i\<close>, the ten
  products are summed, and the digit is the sum modulo 11, modulo 10.
\<close>

definition spec_value :: "char \<Rightarrow> int option" where
  "spec_value c =
     (if CHR ''A'' \<le> c \<and> c \<le> CHR ''Z'' then Some (of_char c - 55)
      else if CHR ''0'' \<le> c \<and> c \<le> CHR ''9'' then Some (of_char c - of_char CHR ''0'')
      else None)"

definition spec_check_digit :: "string \<Rightarrow> int option" where
  "spec_check_digit s =
     (case those (map spec_value s) of
        None \<Rightarrow> None
      | Some vs \<Rightarrow>
          if length vs = 10 then Some ((\<Sum>i = 0..<10. vs ! i * 2 ^ i) mod 11 mod 10)
          else None)"

definition is_digit :: "char \<Rightarrow> bool" where
  "is_digit c = (c \<in> set ''0123456789'')"

section \<open>Fetching the reference pages\<close>

text \<open>
  What \<open>requests.get\<close> can do: raise a \<open>ConnectionError\<close> or a \<open>Timeout\<close> (both
  are \<open>RequestException\<close>s), or return a response with a status code and a body.
  The network is the function \<open>replies\<close>: the outcome of the \<open>k\<close>-th request of the
  run, sent to the given URL. \<open>requests_sent\<close> counts the calls of \<open>requests.get\<close>,
  \<open>slept\<close> the seconds spent in \<open>time.sleep\<close>.
\<close>

datatype response =
  ConnectionError
| Timeout
| HttpResponse (status_code: nat) (content: string)

record network =
  replies :: "nat \<Rightarrow> string \<Rightarrow> response"
  requests_sent :: nat
  slept :: nat

text \<open>
  \<open>response.raise_for_status()\<close> raises \<open>HTTPError\<close> (a \<open>RequestException\<close>) for
  every status from 400 to 599.
\<close>

definition raise_for_status :: "nat \<Rightarrow> bool" where
  "raise_for_status st = (400 \<le> st \<and> st < 600)"

text \<open>
  \<open>get_wikipedia_data(url)\<close>. The result is \<open>Some\<close> body, or \<open>None\<close> where the
  source returns \<open>None\<close> from its \<open>except\<close> branch. The self-call of the source is
  the recursive call here.
\<close>

function get_wikipedia_data :: "string \<Rightarrow> network \<Rightarrow> string option \<times> network" where
  "get_wikipedia_data url n =
     (case replies n (requests_sent n) url of
        ConnectionError \<Rightarrow> (None, n\<lparr>requests_sent := Suc (requests_sent n)\<rparr>)
      | Timeout \<Rightarrow> (None, n\<lparr>requests_sent := Suc (requests_sent n)\<rparr>)
      | HttpResponse st body \<Rightarrow>
          if raise_for_status st then (None, n\<lparr>requests_sent := Suc (requests_sent n)\<rparr>)
          else if st = 429
          then get_wikipedia_data url
                 (n\<lparr>requests_sent := Suc (requests_sent n), slept := slept n + 30\<rparr>)
          else (Some body, n\<lparr>requests_sent := Suc (requests_sent n)\<rparr>))"
  by pat_completeness auto
termination
  by (relation "{}") (auto simp: raise_for_status_def)

declare get_wikipedia_data.simps [simp del]

section \<open>Parsing and cleaning the scraped names\<close>

text \<open>
  BeautifulSoup and the Unicode tables of Python are capabilities of the environment.
  \<open>find_wikitables soup page\<close> stands for
  \<open>soup.find_all('table', {'class': 'wikitable'})\<close>, each table given as the list of its
  \<open>tr\<close> rows and each row as the texts (\<open>get_text(strip=True)\<close>) of its \<open>td\<close> cells;
  \<open>soup.find\<close> is the first element of that list, or \<open>None\<close>. Python's classes
  \<open>\d\<close>, \<open>\w\<close> and the whitespace of \<open>str.strip()\<close> are Unicode-aware: on ASCII
  characters they are fixed, beyond ASCII they are what the environment says.
\<close>

type_synonym html_table = "string list list"

record html_parser =
  find_wikitables :: "string \<Rightarrow> html_table list"
  decimal_beyond_ascii :: "char \<Rightarrow> bool"
  word_beyond_ascii :: "char \<Rightarrow> bool"
  space_beyond_ascii :: "char \<Rightarrow> bool"

definition ascii :: "char \<Rightarrow> bool" where
  "ascii c = ((of_char c :: nat) < 128)"

definition is_decimal :: "html_parser \<Rightarrow> char \<Rightarrow> bool" where
  "is_decimal soup c =
     (if ascii c then CHR ''0'' \<le> c \<and> c \<le> CHR ''9'' else decimal_beyond_ascii soup c)"

definition is_word :: "html_parser \<Rightarrow> char \<Rightarrow> bool" where
  "is_word soup c =
     (if ascii c
      then (CHR ''0'' \<le> c \<and> c \<le> CHR ''9'') \<or> (CHR ''a'' \<le> c \<and> c \<le> CHR ''z'') \<or>
           (CHR ''A'' \<le> c \<and> c \<le> CHR ''Z'') \<or> c = CHR ''_''
      else word_beyond_ascii soup c)"

definition is_space :: "html_parser \<Rightarrow> char \<Rightarrow> bool" where
  "is_space soup c =
     (if ascii c
      then c = CHR '' '' \<or> (9 \<le> (of_char c :: nat) \<and> (of_char c :: nat) \<le> 13) \<or>
           (28 \<le> (of_char c :: nat) \<and> (of_char c :: nat) \<le> 31)
      else space_beyond_ascii soup c)"

text \<open>
  \<open>re.sub(r'\[X+\]', '', s)\<close> for a character class \<open>X\<close> (\<open>\d\<close> or \<open>\w\<close>, which
  hold neither bracket): every \<open>[\<close> followed by one or more \<open>X\<close> and then \<open>]\<close> is
  removed, scanning from the left.
\<close>

function re_sub_bracketed :: "(char \<Rightarrow> bool) \<Rightarrow> string \<Rightarrow> string" where
  "re_sub_bracketed X [] = []"
| "re_sub_bracketed X (c # cs) =
     (if c = CHR ''['' \<and> takeWhile X cs \<noteq> [] \<and> take 1 (dropWhile X cs) = '']''
      then re_sub_bracketed X (drop 1 (dropWhile X cs))
      else c # re_sub_bracketed X cs)"
  by pat_completeness auto
termination
proof (relation "measure (\<lambda>(X, s). length s)")
  fix X :: "char \<Rightarrow> bool" and c :: char and cs :: string
  have "length (dropWhile X cs) \<le> length cs"
    by (rule length_dropWhile_le)
  then show "((X, drop 1 (dropWhile X cs)), (X, c # cs)) \<in> measure (\<lambda>(X, s). length s)"
    by simp
qed simp_all

text \<open>\<open>s.strip()\<close>: leading and trailing whitespace removed.\<close>

definition strip :: "html_parser \<Rightarrow> string \<Rightarrow> string" where
  "strip soup s = rev (dropWhile (is_space soup) (rev (dropWhile (is_space soup) s)))"

text \<open>\<open>s.split('(')[0]\<close>: the text before the first opening parenthesis.\<close>

definition before_paren :: "string \<Rightarrow> string" where
  "before_paren s = takeWhile (\<lambda>c. c \<noteq> CHR ''('') s"

section \<open>The name sources\<close>

definition fallback_companies :: "string list" where
  "fallback_companies =
     [''Maersk'', ''Mediterranean Shipping Company'', ''CMA CGM'',
      ''COSCO Shipping'', ''Hapag-Lloyd'', ''Ocean Network Express'']"

definition fallback_ports :: "string list" where
  "fallback_ports = [''Shanghai'', ''Singapore'', ''Ningbo-Zhoushan'', ''Shenzhen'', ''Guangzhou'']"

definition scrape_shipping_companies :: "html_parser \<Rightarrow> network \<Rightarrow> string list \<times> network" where
  "scrape_shipping_companies soup n0 =
     (let url = ''https://en.wikipedia.org/wiki/List_of_largest_container_shipping_companies'';
          (content, n1) = get_wikipedia_data url n0;
          companies =
            (case content of
               None \<Rightarrow> []
             | Some page \<Rightarrow>
                 if page = [] then []
                 else (case find_wikitables soup page of
                         [] \<Rightarrow> fallback_companies
                       | table # _ \<Rightarrow>
                           [strip soup (re_sub_bracketed (is_decimal soup) (cols ! 1)).
                              cols \<leftarrow> drop 1 table, 2 \<le> length cols]))
      in (take 15 companies, n1))"

definition scrape_container_ports :: "html_parser \<Rightarrow> network \<Rightarrow> string list \<times> network" where
  "scrape_container_ports soup n0 =
     (let url = ''https://en.wikipedia.org/wiki/List_of_busiest_container_ports'';
          (content, n1) = get_wikipedia_data url n0;
          ports =
            (case content of
               None \<Rightarrow> []
             | Some page \<Rightarrow>
                 if page = [] then []
                 else (case find_wikitables soup page of
                         [] \<Rightarrow> fallback_ports
                       | table # _ \<Rightarrow>
                           [strip soup (before_paren (re_sub_bracketed (is_word soup) (cols ! 1))).
                              cols \<leftarrow> drop 1 table, 3 \<le> length cols]))
      in (ports, n1))"

section \<open>Exceptions\<close>

text \<open>
  The exceptions the seeding stages can raise: a missing dictionary key, Faker's refusal
  to sample more unique elements than there are, a choice from an empty sequence, the
  give-up of \<open>fake.unique\<close>, and any \<open>psycopg2.Error\<close> of the store.
\<close>

datatype exn =
  KeyError string
| ValueError
| IndexError
| UniquenessException
| DatabaseError

section \<open>The relational store\<close>

text \<open>
  The schema is not part of the repository; the rows hold the columns the statements of
  the script name. Surrogate keys come from one sequence per table. A lookup row is the
  pair of its id and its name.
\<close>

datatype lookup_table = ShipmentStatus | ContainerType | BerthStatus

datatype table_name = Lookup lookup_table | Client | Vessel | Berth | Shipment | Container

record client_row =
  client_id :: nat
  company_name :: string
  contact_person :: string
  email :: string
  phone_number :: string

record vessel_row =
  vessel_id :: nat
  vessel_name :: string
  imo_number :: string

record berth_row =
  berth_id :: nat
  berth_number :: string
  berth_status_id :: nat
  berth_vessel_id :: "nat option"

record shipment_row =
  shipment_id :: nat
  shipment_client_id :: nat
  shipment_status_id :: nat
  bill_of_lading_no :: string
  origin :: string
  destination :: string
  declared_value :: int

record container_row =
  container_shipment_id :: nat
  container_vessel_id :: "nat option"
  container_type_id :: nat
  container_number :: string
  container_size :: int

record tables =
  lookup :: "lookup_table \<Rightarrow> (nat \<times> string) list"
  client :: "client_row list"
  vessel :: "vessel_row list"
  berth :: "berth_row list"
  shipment :: "shipment_row list"
  container :: "container_row list"

text \<open>
  A connection with \<open>autocommit = False\<close>: \<open>committed\<close> is what the store holds for
  everybody, \<open>pending\<close> what the open transaction sees. Sequences are not transactional.
  The store may fail: statement number \<open>k\<close> of the connection raises when \<open>faults k\<close>,
  and, as PostgreSQL does, every later statement of the same transaction raises too
  (\<open>aborted\<close>) until the transaction is rolled back.
\<close>

record connection =
  reachable :: bool
  committed :: tables
  pending :: tables
  sequences :: "table_name \<Rightarrow> nat"
  faults :: "nat \<Rightarrow> bool"
  executed :: nat
  aborted :: bool

text \<open>The effects of the single statements, on a connection whose statement succeeds.\<close>

definition nextval :: "table_name \<Rightarrow> connection \<Rightarrow> nat \<times> connection" where
  "nextval t c =
     (let v = Suc (sequences c t) in (v, c\<lparr>sequences := (sequences c)(t := v)\<rparr>))"

definition set_session_replication_role :: "string \<Rightarrow> connection \<Rightarrow> unit \<times> connection" where
  "set_session_replication_role role c = ((), c)"

text \<open>
  \<open>TRUNCATE TABLE t CASCADE\<close> empties the table. The cascade reaches only tables that
  the same loop of \<open>truncate_tables\<close> empties itself.
\<close>

definition cleared :: "table_name \<Rightarrow> tables \<Rightarrow> tables" where
  "cleared t p =
     (case t of
        Lookup l \<Rightarrow> p\<lparr>lookup := (lookup p)(l := [])\<rparr>
      | Client \<Rightarrow> p\<lparr>client := []\<rparr>
      | Vessel \<Rightarrow> p\<lparr>vessel := []\<rparr>
      | Berth \<Rightarrow> p\<lparr>berth := []\<rparr>
      | Shipment \<Rightarrow> p\<lparr>shipment := []\<rparr>
      | Container \<Rightarrow> p\<lparr>container := []\<rparr>)"

definition truncate_table :: "table_name \<Rightarrow> connection \<Rightarrow> unit \<times> connection" where
  "truncate_table t c = ((), c\<lparr>pending := cleared t (pending c)\<rparr>)"

text \<open>
  Modelled from the spec: the unique constraint on a lookup table's name column is part
  of the schema, which is not in the repository. \<open>INSERT ... ON CONFLICT DO NOTHING\<close> is
  the spec's "idempotent insert-if-absent per value": the row is added unless a row of
  that name is there. The sequence advances either way.
\<close>

definition insert_lookup :: "lookup_table \<Rightarrow> string \<Rightarrow> connection \<Rightarrow> unit \<times> connection" where
  "insert_lookup l name c =
     (let (i, c1) = nextval (Lookup l) c;
          p = pending c1;
          rows = lookup p l
      in if name \<in> snd ` set rows then ((), c1)
         else ((), c1\<lparr>pending := p\<lparr>lookup := (lookup p)(l := rows @ [(i, name)])\<rparr>\<rparr>))"

text \<open>\<open>SELECT name, id FROM l\<close>: the rows as (name, id) pairs.\<close>

definition select_lookup :: "lookup_table \<Rightarrow> connection \<Rightarrow> (string \<times> nat) list \<times> connection" where
  "select_lookup l c = (map (\<lambda>(i, name). (name, i)) (lookup (pending c) l), c)"

definition insert_client ::
  "string \<Rightarrow> string \<Rightarrow> string \<Rightarrow> string \<Rightarrow> connection \<Rightarrow> nat \<times> connection" where
  "insert_client company person mail phone c =
     (let (i, c1) = nextval Client c;
          p = pending c1;
          row = \<lparr>client_id = i, company_name = company, contact_person = person,
                 email = mail, phone_number = phone\<rparr>
      in (i, c1\<lparr>pending := p\<lparr>client := client p @ [row]\<rparr>\<rparr>))"

definition insert_vessel :: "string \<Rightarrow> string \<Rightarrow> connection \<Rightarrow> nat \<times> connection" where
  "insert_vessel name imo c =
     (let (i, c1) = nextval Vessel c;
          p = pending c1;
          row = \<lparr>vessel_id = i, vessel_name = name, imo_number = imo\<rparr>
      in (i, c1\<lparr>pending := p\<lparr>vessel := vessel p @ [row]\<rparr>\<rparr>))"

definition insert_berth :: "string \<Rightarrow> nat \<Rightarrow> nat option \<Rightarrow> connection \<Rightarrow> nat \<times> connection" where
  "insert_berth number status v c =
     (let (i, c1) = nextval Berth c;
          p = pending c1;
          row = \<lparr>berth_id = i, berth_number = number, berth_status_id = status,
                 berth_vessel_id = v\<rparr>
      in (i, c1\<lparr>pending := p\<lparr>berth := berth p @ [row]\<rparr>\<rparr>))"

definition insert_shipment ::
  "nat \<Rightarrow> nat \<Rightarrow> string \<Rightarrow> string \<Rightarrow> string \<Rightarrow> int \<Rightarrow> connection \<Rightarrow> nat \<times> connection" where
  "insert_shipment cid status bol orig dest val c =
     (let (i, c1) = nextval Shipment c;
          p = pending c1;
          row = \<lparr>shipment_id = i, shipment_client_id = cid, shipment_status_id = status,
                 bill_of_lading_no = bol, origin = orig, destination = dest,
                 declared_value = val\<rparr>
      in (i, c1\<lparr>pending := p\<lparr>shipment := shipment p @ [row]\<rparr>\<rparr>))"

definition insert_container ::
  "nat \<Rightarrow> nat option \<Rightarrow> nat \<Rightarrow> string \<Rightarrow> int \<Rightarrow> connection \<Rightarrow> unit \<times> connection" where
  "insert_container sid v ctype number sz c =
     (let p = pending c;
          row = \<lparr>container_shipment_id = sid, container_vessel_id = v,
                 container_type_id = ctype, container_number = number, container_size = sz\<rparr>
      in ((), c\<lparr>pending := p\<lparr>container := container p @ [row]\<rparr>\<rparr>))"

section \<open>The state of a run and its actions\<close>

record world =
  db :: connection
  fake :: faker
  net :: network

type_synonym 'a action = "world \<Rightarrow> (exn + 'a) \<times> world"

definition return :: "'a \<Rightarrow> 'a action" where
  "return a w = (Inr a, w)"

definition raise :: "exn \<Rightarrow> 'a action" where
  "raise e w = (Inl e, w)"

text \<open>Sequencing: an exception of the first action skips the rest.\<close>

definition and_then :: "'a action \<Rightarrow> ('a \<Rightarrow> 'b action) \<Rightarrow> 'b action" where
  "and_then m k w = (case m w of (Inl e, w') \<Rightarrow> (Inl e, w') | (Inr a, w') \<Rightarrow> k a w')"

text \<open>
  \<open>for x in xs: body\<close>, with the variables the body updates passed along as \<open>acc\<close>;
  an exception leaves the loop.
\<close>

fun for_each :: "'a list \<Rightarrow> ('a \<Rightarrow> 'b \<Rightarrow> 'b action) \<Rightarrow> 'b \<Rightarrow> 'b action" where
  "for_each [] body acc w = (Inr acc, w)"
| "for_each (x # xs) body acc w =
     (case body x acc w of
        (Inl e, w') \<Rightarrow> (Inl e, w')
      | (Inr acc', w') \<Rightarrow> for_each xs body acc' w')"

text \<open>\<open>range(a, b)\<close> and \<open>range(b)\<close> for Python integers.\<close>

definition py_range :: "int \<Rightarrow> int \<Rightarrow> int list" where
  "py_range a b = [a..b - 1]"

text \<open>
  \<open>cursor.execute(statement)\<close>: the statement raises \<open>psycopg2.Error\<close> when the store
  fails at it or the transaction is already aborted; otherwise it takes effect.
\<close>

definition execute :: "(connection \<Rightarrow> 'a \<times> connection) \<Rightarrow> 'a action" where
  "execute statement w =
     (let c = db w in
      if aborted c \<or> faults c (executed c)
      then (Inl DatabaseError, w\<lparr>db := c\<lparr>executed := Suc (executed c), aborted := True\<rparr>\<rparr>)
      else (let (a, c') = statement c
            in (Inr a, w\<lparr>db := c'\<lparr>executed := Suc (executed c)\<rparr>\<rparr>)))"

text \<open>
  \<open>db_conn.commit()\<close> publishes the pending tables (an aborted transaction is rolled
  back instead); \<open>db_conn.rollback()\<close> discards them.
\<close>

definition rollback :: "world \<Rightarrow> world" where
  "rollback w = w\<lparr>db := (db w)\<lparr>pending := committed (db w), aborted := False\<rparr>\<rparr>"

definition commit :: "unit action" where
  "commit w =
     (if aborted (db w) then (Inr (), rollback w)
      else (Inr (), w\<lparr>db := (db w)\<lparr>committed := pending (db w)\<rparr>\<rparr>))"

text \<open>Calls of Faker and of a dictionary, as actions.\<close>

definition draw :: "(faker \<Rightarrow> 'a \<times> faker) \<Rightarrow> 'a action" where
  "draw g w = (let (a, f') = g (fake w) in (Inr a, w\<lparr>fake := f'\<rparr>))"

definition draw_or_raise :: "(faker \<Rightarrow> (exn + 'a) \<times> faker) \<Rightarrow> 'a action" where
  "draw_or_raise g w = (let (r, f') = g (fake w) in (r, w\<lparr>fake := f'\<rparr>))"

text \<open>\<open>{row[0]: row[1] for row in rows}\<close>: a later row of the same key wins.\<close>

definition dict_of :: "(string \<times> nat) list \<Rightarrow> (string \<rightharpoonup> nat)" where
  "dict_of rows = map_of (rev rows)"

definition subscript :: "(string \<rightharpoonup> nat) \<Rightarrow> string \<Rightarrow> nat action" where
  "subscript d k = (case d k of None \<Rightarrow> raise (KeyError k) | Some v \<Rightarrow> return v)"

section \<open>More of Faker\<close>

text \<open>\<open>fake.random_int(min, max)\<close>: an integer between the two bounds, both included.\<close>

definition random_int :: "int \<Rightarrow> int \<Rightarrow> faker \<Rightarrow> int \<times> faker" where
  "random_int lo hi f =
     (let (r, f') = next_draw f in (lo + int (r mod nat (hi - lo + 1)), f'))"

text \<open>\<open>fake.random_element(elements)\<close>; an empty sequence has nothing to choose.\<close>

definition random_element :: "'a list \<Rightarrow> faker \<Rightarrow> (exn + 'a) \<times> faker" where
  "random_element elements f =
     (if elements = [] then (Inl IndexError, f)
      else (let (r, f') = next_draw f in (Inr (elements ! (r mod length elements)), f')))"

text \<open>
  \<open>fake.random_elements(elements, unique=True, length=2)\<close>: \<open>ValueError\<close> when there
  are fewer than two elements, otherwise the elements at two different positions of the
  sequence, in either order.
\<close>

definition random_elements_unique_2 :: "'a list \<Rightarrow> faker \<Rightarrow> (exn + 'a \<times> 'a) \<times> faker" where
  "random_elements_unique_2 elements f =
     (if length elements < 2 then (Inl ValueError, f)
      else (let (r1, f1) = next_draw f;
                (r2, f2) = next_draw f1;
                i = r1 mod length elements;
                j0 = r2 mod (length elements - 1);
                j = (if j0 < i then j0 else Suc j0)
            in (Inr (elements ! i, elements ! j), f2)))"

text \<open>
  \<open>fake.name()\<close>, \<open>fake.company_email()\<close> and \<open>fake.phone_number()\<close>: the rendered text
  is not modelled; in its place stand the provider's name and the draw it is rendered from.
\<close>

definition fake_text :: "string \<Rightarrow> faker \<Rightarrow> string \<times> faker" where
  "fake_text provider f = (let (r, f') = next_draw f in (provider @ '':'' @ str_nat r, f'))"

definition zero_pad :: "nat \<Rightarrow> string \<Rightarrow> string" where
  "zero_pad width s = replicate (width - length s) CHR ''0'' @ s"

text \<open>\<open>fake.bothify(text='BLD#########')\<close>: each \<open>#\<close> becomes a digit.\<close>

definition bothify_BLD :: "faker \<Rightarrow> string \<times> faker" where
  "bothify_BLD f = (let (r, f') = next_draw f in (''BLD'' @ zero_pad 9 (str_nat (r mod 10 ^ 9)), f'))"

text \<open>
  \<open>fake.unique\<close>: the proxy calls the generator until a value not handed out before
  comes back. It makes at most 1000 calls; the first 999 values are tested, and when all
  of them were handed out before, \<open>UniquenessException\<close> is raised after the 1000th
  call, whose value is not tested. \<open>unique_attempts k retval\<close> is the loop with \<open>k\<close>
  tests left and \<open>retval\<close> the value of the last call.
\<close>

fun unique_attempts :: "nat \<Rightarrow> string \<Rightarrow> faker \<Rightarrow> (exn + string) \<times> faker" where
  "unique_attempts 0 retval f = (Inl UniquenessException, f)"
| "unique_attempts (Suc k) retval f =
     (if retval \<notin> set (generated f) then (Inr retval, f\<lparr>generated := retval # generated f\<rparr>)
      else (let (retval', f') = bothify_BLD f in unique_attempts k retval' f'))"

definition unique_bothify_BLD :: "faker \<Rightarrow> (exn + string) \<times> faker" where
  "unique_bothify_BLD f = (let (retval, f') = bothify_BLD f in unique_attempts 999 retval f')"

section \<open>The reset and the lookup seeder\<close>

text \<open>
  \<open>truncate_tables\<close>: a failing \<open>TRUNCATE\<close> is caught and logged, the two \<open>SET\<close>
  statements are not guarded. The commit is reached only when nothing was raised.
\<close>

fun truncate_each :: "table_name list \<Rightarrow> world \<Rightarrow> world" where
  "truncate_each [] w = w"
| "truncate_each (t # ts) w = truncate_each ts (snd (execute (truncate_table t) w))"

definition truncate_tables :: "unit action" where
  "truncate_tables =
     (let tables = [Container, Shipment, Berth, Client, Vessel,
                    Lookup BerthStatus, Lookup ContainerType, Lookup ShipmentStatus]
      in and_then (execute (set_session_replication_role ''replica'')) (\<lambda>_.
         and_then (\<lambda>w. (Inr (), truncate_each tables w)) (\<lambda>_.
         and_then (execute (set_session_replication_role ''origin'')) (\<lambda>_.
         commit))))"

definition statuses :: "string list" where
  "statuses = [''PENDING'', ''IN_TRANSIT'', ''AWAITING_CUSTOMS'', ''CLEARED'', ''DELIVERED'']"

definition container_types :: "string list" where
  "container_types = [''DRY'', ''REEFER'', ''OPEN_TOP'', ''FLAT_RACK'']"

definition berth_statuses :: "string list" where
  "berth_statuses = [''AVAILABLE'', ''OCCUPIED'', ''MAINTENANCE'']"

definition populate_lookup_tables :: "unit action" where
  "populate_lookup_tables =
     and_then (for_each statuses
                 (\<lambda>status _. execute (insert_lookup ShipmentStatus status)) ()) (\<lambda>_.
     and_then (for_each container_types
                 (\<lambda>ctype _. execute (insert_lookup ContainerType ctype)) ()) (\<lambda>_.
     and_then (for_each berth_statuses
                 (\<lambda>status _. execute (insert_lookup BerthStatus status)) ()) (\<lambda>_.
     commit)))"

section \<open>The entity stages\<close>

text \<open>
  Each stage is its loop over the ids of an earlier stage; the body of a loop is a
  definition of its own, named after the stage, and takes the variables it updates
  (the list of ids so far, or the count) as its last argument.
\<close>

definition populate_clients_body :: "string \<Rightarrow> nat list \<Rightarrow> nat list action" where
  "populate_clients_body company client_ids =
     and_then (draw (fake_text ''name'')) (\<lambda>person.
     and_then (draw (fake_text ''company_email'')) (\<lambda>mail.
     and_then (draw (fake_text ''phone_number'')) (\<lambda>phone.
     and_then (execute (insert_client company person mail phone)) (\<lambda>cid.
     return (client_ids @ [cid])))))"

definition populate_clients :: "string list \<Rightarrow> nat list action" where
  "populate_clients companies = for_each companies populate_clients_body []"

definition vessel_prefixes :: "string list" where
  "vessel_prefixes = [''Atlantic'', ''Pacific'', ''Global'', ''Marine'', ''Ocean'']"

definition vessel_suffixes :: "string list" where
  "vessel_suffixes = [''Express'', ''Carrier'', ''Voyager'', ''Explorer'', ''Horizon'']"

definition populate_vessels_body :: "int \<Rightarrow> nat list \<Rightarrow> nat list action" where
  "populate_vessels_body i vessel_ids =
     and_then (draw_or_raise (random_element vessel_prefixes)) (\<lambda>prefix.
     and_then (draw_or_raise (random_element vessel_suffixes)) (\<lambda>suffix.
     and_then (draw (random_int 100 999)) (\<lambda>number.
     and_then (draw (random_number 5 True)) (\<lambda>imo.
     and_then (execute (insert_vessel (prefix @ '' '' @ suffix @ '' '' @ str number)
                                      (''98'' @ str imo))) (\<lambda>vid.
     return (vessel_ids @ [vid]))))))"

definition populate_vessels :: "int \<Rightarrow> nat list action" where
  "populate_vessels client_count =
     for_each (py_range 0 (client_count * 3)) populate_vessels_body []"

definition populate_berths_body ::
  "(string \<rightharpoonup> nat) \<Rightarrow> nat list \<Rightarrow> int \<Rightarrow> nat list \<Rightarrow> nat list action" where
  "populate_berths_body status_ids vessel_ids i berth_ids =
     (let status = (if i \<le> int (length vessel_ids) then ''OCCUPIED'' else ''AVAILABLE'');
          vessel_id = (if i \<le> int (length vessel_ids) then Some (vessel_ids ! nat (i - 1))
                       else None)
      in and_then (subscript status_ids status) (\<lambda>status_id.
         and_then (execute (insert_berth (''B'' @ zero_pad 3 (str i)) status_id vessel_id))
           (\<lambda>bid.
         return (berth_ids @ [bid]))))"

definition populate_berths :: "nat list \<Rightarrow> nat list action" where
  "populate_berths vessel_ids =
     and_then (execute (select_lookup BerthStatus)) (\<lambda>rows.
       for_each (py_range 1 21) (populate_berths_body (dict_of rows) vessel_ids) [])"

definition status_options :: "string list" where
  "status_options = [''PENDING'', ''IN_TRANSIT'', ''AWAITING_CUSTOMS'', ''CLEARED'']"

text \<open>The inner loop body of \<open>populate_shipments\<close>: one shipment of a client.\<close>

definition populate_shipments_body ::
  "(string \<rightharpoonup> nat) \<Rightarrow> string list \<Rightarrow> nat \<Rightarrow> int \<Rightarrow> nat list \<Rightarrow> nat list action" where
  "populate_shipments_body status_ids ports cid i shipment_ids =
     and_then (draw_or_raise (random_elements_unique_2 ports)) (\<lambda>(orig, dest).
     and_then (draw_or_raise (random_element status_options)) (\<lambda>status.
     and_then (subscript status_ids status) (\<lambda>status_id.
     and_then (draw_or_raise unique_bothify_BLD) (\<lambda>bol.
     and_then (draw (random_number 5 False)) (\<lambda>val.
     and_then (execute (insert_shipment cid status_id bol orig dest (val + 1000))) (\<lambda>sid.
     return (shipment_ids @ [sid])))))))"

text \<open>The outer loop body: the 2 to 5 shipments of one client.\<close>

definition populate_shipments_client ::
  "(string \<rightharpoonup> nat) \<Rightarrow> string list \<Rightarrow> nat \<Rightarrow> nat list \<Rightarrow> nat list action" where
  "populate_shipments_client status_ids ports cid shipment_ids =
     and_then (draw (random_int 2 5)) (\<lambda>k.
       for_each (py_range 0 k) (populate_shipments_body status_ids ports cid) shipment_ids)"

definition populate_shipments :: "nat list \<Rightarrow> string list \<Rightarrow> nat list action" where
  "populate_shipments client_ids ports =
     and_then (execute (select_lookup ShipmentStatus)) (\<lambda>rows.
       for_each client_ids (populate_shipments_client (dict_of rows) ports) [])"

text \<open>The inner loop body of \<open>populate_containers\<close>: one container of a shipment.\<close>

definition populate_containers_body ::
  "(string \<rightharpoonup> nat) \<Rightarrow> nat list \<Rightarrow> nat \<Rightarrow> int \<Rightarrow> int \<Rightarrow> int action" where
  "populate_containers_body type_ids vessel_ids sid i container_count =
     and_then (draw_or_raise (random_element container_types)) (\<lambda>container_type.
     and_then (if vessel_ids \<noteq> []
               then and_then (draw_or_raise (random_element vessel_ids)) (\<lambda>v. return (Some v))
               else return None) (\<lambda>assigned_vessel.
     and_then (subscript type_ids container_type) (\<lambda>type_id.
     and_then (draw generate_container_number) (\<lambda>number.
     and_then (draw_or_raise (random_element [20, 40])) (\<lambda>sz.
     and_then (execute (insert_container sid assigned_vessel type_id number sz)) (\<lambda>_.
     return (container_count + 1)))))))"

text \<open>The outer loop body: the 1 to 4 containers of one shipment.\<close>

definition populate_containers_shipment ::
  "(string \<rightharpoonup> nat) \<Rightarrow> nat list \<Rightarrow> nat \<Rightarrow> int \<Rightarrow> int action" where
  "populate_containers_shipment type_ids vessel_ids sid container_count =
     and_then (draw (random_int 1 4)) (\<lambda>k.
       for_each (py_range 0 k) (populate_containers_body type_ids vessel_ids sid)
         container_count)"

definition populate_containers :: "nat list \<Rightarrow> nat list \<Rightarrow> int action" where
  "populate_containers shipment_ids vessel_ids =
     and_then (execute (select_lookup ContainerType)) (\<lambda>rows.
       for_each shipment_ids (populate_containers_shipment (dict_of rows) vessel_ids) 0)"

section \<open>The orchestration\<close>

datatype outcome =
  ConnectFailed
| Committed (n_clients: nat) (n_vessels: nat) (n_shipments: nat) (n_containers: int)
| RolledBack exn

definition scrape :: "(network \<Rightarrow> string list \<times> network) \<Rightarrow> string list action" where
  "scrape scraper w = (let (names, n') = scraper (net w) in (Inr names, w\<lparr>net := n'\<rparr>))"

text \<open>Steps 3 to 8 of \<open>main\<close> and the commit that ends a successful run.\<close>

definition seed_entities :: "html_parser \<Rightarrow> outcome action" where
  "seed_entities wikitables =
     and_then (scrape (scrape_shipping_companies wikitables)) (\<lambda>companies.
     and_then (populate_clients companies) (\<lambda>client_ids.
     and_then (scrape (scrape_container_ports wikitables)) (\<lambda>ports.
     and_then (populate_vessels (int (length client_ids))) (\<lambda>vessel_ids.
     and_then (populate_berths vessel_ids) (\<lambda>berth_ids.
     and_then (populate_shipments client_ids ports) (\<lambda>shipment_ids.
     and_then (populate_containers shipment_ids vessel_ids) (\<lambda>container_count.
     and_then commit (\<lambda>_.
     return (Committed (length client_ids) (length vessel_ids)
               (length shipment_ids) container_count)))))))))"

text \<open>
  \<open>main\<close>: a failed connection ends the run before anything is touched; an exception of
  any step is caught, the transaction rolled back; last, the connection is closed.
\<close>

definition main :: "html_parser \<Rightarrow> world \<Rightarrow> outcome \<times> world" where
  "main wikitables w0 =
     (if \<not> reachable (db w0) then (ConnectFailed, w0)
      else (case
              and_then truncate_tables (\<lambda>_.
              and_then populate_lookup_tables (\<lambda>_.
              seed_entities wikitables)) w0
            of
              (Inr done, w) \<Rightarrow> (done, w)
            | (Inl e, w) \<Rightarrow> (RolledBack e, rollback w)))"

section \<open>Contracts of actions\<close>

text \<open>
  \<open>triple P m Q E\<close>: started in a state satisfying \<open>P\<close>, the action \<open>m\<close> either
  returns a value \<open>a\<close> in a state satisfying \<open>Q a\<close>, or raises in a state
  satisfying \<open>E\<close>.
\<close>

definition triple ::
  "(world \<Rightarrow> bool) \<Rightarrow> 'a action \<Rightarrow> ('a \<Rightarrow> world \<Rightarrow> bool) \<Rightarrow> (world \<Rightarrow> bool) \<Rightarrow> bool" where
  "triple P m Q E =
     (\<forall>w. P w \<longrightarrow> (case m w of (Inr a, w') \<Rightarrow> Q a w' | (Inl e, w') \<Rightarrow> E w'))"

text \<open>
  The rule a generated container obeys (claim C10): its vessel reference is null exactly
  when no vessel was generated, and otherwise is one of the generated vessel ids.
\<close>

definition vessel_rule :: "nat list \<Rightarrow> container_row \<Rightarrow> bool" where
  "vessel_rule vessel_ids row =
     ((container_vessel_id row = None \<longleftrightarrow> vessel_ids = []) \<and>
      (vessel_ids \<noteq> [] \<longrightarrow> (\<exists>v \<in> set vessel_ids. container_vessel_id row = Some v)))"

definition containers_added :: "(container_row \<Rightarrow> bool) \<Rightarrow> container_row list \<Rightarrow> world \<Rightarrow> bool" where
  "containers_added ok old w =
     (\<exists>new. container (pending (db w)) = old @ new \<and> list_all ok new)"

text \<open>
  The rule a generated shipment obeys (claim C9), given the rows of the ShipmentStatus
  table: its status id is the id of a row named in \<open>status_options\<close>, and, ids being
  unique, not the id of the row named DELIVERED.
\<close>

definition status_rule :: "(nat \<times> string) list \<Rightarrow> shipment_row \<Rightarrow> bool" where
  "status_rule rows row =
     ((\<exists>name \<in> set status_options. (shipment_status_id row, name) \<in> set rows) \<and>
      (distinct (map fst rows) \<longrightarrow> (shipment_status_id row, ''DELIVERED'') \<notin> set rows))"

definition shipments_added :: "(shipment_row \<Rightarrow> bool) \<Rightarrow> shipment_row list \<Rightarrow> world \<Rightarrow> bool" where
  "shipments_added ok old w =
     (\<exists>new. shipment (pending (db w)) = old @ new \<and> list_all ok new)"

definition distinct_ends :: "shipment_row \<Rightarrow> bool" where
  "distinct_ends row = (origin row \<noteq> destination row)"

definition shipment_rule :: "(nat \<times> string) list \<Rightarrow> string list \<Rightarrow> shipment_row \<Rightarrow> bool" where
  "shipment_rule rows ports row = (status_rule rows row \<and> (distinct ports \<longrightarrow> distinct_ends row))"

text \<open>
  The rule the berths of a run obey (claim C6), given the rows of the BerthStatus table
  and the ids of the generated vessels. A berth is OCCUPIED (AVAILABLE) when its status
  id is the id of a row of that name. The berth at position \<open>k\<close>, counted from zero, is
  OCCUPIED and refers to the vessel at position \<open>k\<close> when there is one, and is AVAILABLE
  with no vessel otherwise.
\<close>

definition occupied :: "(nat \<times> string) list \<Rightarrow> berth_row \<Rightarrow> bool" where
  "occupied rows row = ((berth_status_id row, ''OCCUPIED'') \<in> set rows)"

definition available :: "(nat \<times> string) list \<Rightarrow> berth_row \<Rightarrow> bool" where
  "available rows row = ((berth_status_id row, ''AVAILABLE'') \<in> set rows)"

definition berth_rule :: "(nat \<times> string) list \<Rightarrow> nat list \<Rightarrow> nat \<Rightarrow> berth_row \<Rightarrow> bool" where
  "berth_rule rows vessel_ids k row =
     (if k < length vessel_ids
      then occupied rows row \<and> \<not> available rows row \<and>
           berth_vessel_id row = Some (vessel_ids ! k)
      else available rows row \<and> \<not> occupied rows row \<and> berth_vessel_id row = None)"

definition berths_added ::
  "(nat \<times> string) list \<Rightarrow> nat list \<Rightarrow> berth_row list \<Rightarrow> world \<Rightarrow> bool" where
  "berths_added rows vessel_ids old w =
     (\<exists>new. berth (pending (db w)) = old @ new \<and>
        map berth_number new =
          [''B001'', ''B002'', ''B003'', ''B004'', ''B005'', ''B006'', ''B007'', ''B008'',
           ''B009'', ''B010'', ''B011'', ''B012'', ''B013'', ''B014'', ''B015'', ''B016'',
           ''B017'', ''B018'', ''B019'', ''B020''] \<and>
        (\<forall>k<20. berth_rule rows vessel_ids k (new ! k)) \<and>
        length (filter (occupied rows) new) = min 20 (length vessel_ids) \<and>
        distinct (map berth_vessel_id (filter (occupied rows) new)))"

text \<open>The columns a berth row is inserted with.\<close>

definition berth_fields :: "berth_row \<Rightarrow> string \<times> nat option \<times> nat option" where
  "berth_fields r = (berth_number r, Some (berth_status_id r), berth_vessel_id r)"

text \<open>
  What a run leaves visible (claim C2): the entity tables empty, the lookup tables
  empty, the lookup tables holding exactly the fixed names.
\<close>

definition entities_empty :: "tables \<Rightarrow> bool" where
  "entities_empty t =
     (client t = [] \<and> vessel t = [] \<and> berth t = [] \<and> shipment t = [] \<and> container t = [])"

definition lookups_empty :: "tables \<Rightarrow> bool" where
  "lookups_empty t =
     (lookup t ShipmentStatus = [] \<and> lookup t ContainerType = [] \<and> lookup t BerthStatus = [])"

definition lookups_seeded :: "tables \<Rightarrow> bool" where
  "lookups_seeded t =
     (map snd (lookup t ShipmentStatus) = statuses \<and>
      map snd (lookup t ContainerType) = container_types \<and>
      map snd (lookup t BerthStatus) = berth_statuses)"


section \<open>Concrete environments\<close>

text \<open>
  A network whose first answer is 429 (too many requests) and whose later answers are
  pages, and an endpoint that cannot be reached at all.
\<close>

definition rate_limited_net :: network where
  "rate_limited_net =
     \<lparr>replies = (\<lambda>k url. if k = 0 then HttpResponse 429 '''' else HttpResponse 200 ''<html></html>''),
      requests_sent = 0, slept = 0\<rparr>"

definition unreachable_net :: network where
  "unreachable_net = \<lparr>replies = (\<lambda>k url. ConnectionError), requests_sent = 0, slept = 0\<rparr>"

text \<open>
  A store as the reset and the lookup seeder leave it when every sequence starts at
  zero, a random source whose \<open>k\<close>-th draw is \<open>k\<close>, and the world made of them.
\<close>

definition no_tables :: tables where
  "no_tables =
     \<lparr>lookup = (\<lambda>l. []), client = [], vessel = [], berth = [], shipment = [], container = []\<rparr>"

definition seeded_tables :: tables where
  "seeded_tables =
     no_tables\<lparr>lookup :=
       (\<lambda>l. case l of
          ShipmentStatus \<Rightarrow> [(1, ''PENDING''), (2, ''IN_TRANSIT''), (3, ''AWAITING_CUSTOMS''),
                            (4, ''CLEARED''), (5, ''DELIVERED'')]
        | ContainerType \<Rightarrow> [(1, ''DRY''), (2, ''REEFER''), (3, ''OPEN_TOP''), (4, ''FLAT_RACK'')]
        | BerthStatus \<Rightarrow> [(1, ''AVAILABLE''), (2, ''OCCUPIED''), (3, ''MAINTENANCE'')])\<rparr>"

definition store :: "tables \<Rightarrow> (nat \<Rightarrow> bool) \<Rightarrow> connection" where
  "store t fs =
     \<lparr>reachable = True, committed = t, pending = t, sequences = (\<lambda>_. 0), faults = fs,
      executed = 0, aborted = False\<rparr>"

definition counting_faker :: faker where
  "counting_faker = \<lparr>draws = (\<lambda>k. k), cursor = 0, generated = []\<rparr>"

definition seeded_world :: world where
  "seeded_world =
     \<lparr>db = store seeded_tables (\<lambda>k. False), fake = counting_faker, net = unreachable_net\<rparr>"

text \<open>The world right after the reset: every table empty, no statement fails.\<close>

definition fresh_world :: world where
  "fresh_world =
     \<lparr>db = store no_tables (\<lambda>k. False), fake = counting_faker, net = unreachable_net\<rparr>"

text \<open>
  A parser that finds no table in any page, and a fresh store whose statement number 22
  (counted from zero) fails: the reset takes statements 0 to 9 and the lookup seeder
  statements 10 to 21, so the failing statement is the first one of the entity stages
  that reaches the store.
\<close>

definition no_table_parser :: html_parser where
  "no_table_parser =
     \<lparr>find_wikitables = (\<lambda>page. []), decimal_beyond_ascii = (\<lambda>c. False),
      word_beyond_ascii = (\<lambda>c. False), space_beyond_ascii = (\<lambda>c. False)\<rparr>"

definition faulty_world :: world where
  "faulty_world =
     \<lparr>db = store no_tables (\<lambda>k. k = 22), fake = counting_faker, net = unreachable_net\<rparr>"


section \<open>The container number carries its check digit\<close>

lemma str_nat_small: "n < 10 \<Longrightarrow> str_nat n = [char_of (48 + n)]"
  by (simp add: str_nat.simps)

lemma str_nat_step: "10 \<le> n \<Longrightarrow> str_nat n = str_nat (n div 10) @ [char_of (48 + n mod 10)]"
  by (subst str_nat.simps) simp

lemma length_str_nat_6: "100000 \<le> n \<Longrightarrow> n < 1000000 \<Longrightarrow> length (str_nat n) = 6"
  by (simp add: str_nat_step str_nat_small)

lemma of_char_digit: "d < 10 \<Longrightarrow> (of_char (char_of (48 + d :: nat)) :: nat) = 48 + d"
  by (simp add: of_char_of)
lemma str_nat_digits: "c \<in> set (str_nat n) \<Longrightarrow> 48 \<le> (of_char c :: nat) \<and> (of_char c :: nat) \<le> 57"
proof (induction n arbitrary: c rule: str_nat.induct)
  case (1 n)
  show ?case
  proof (cases "n < 10")
    case True
    with "1.prems" show ?thesis by (auto simp: str_nat_small of_char_digit)
  next
    case False
    have "n mod 10 < 10" by simp
    then have d: "(of_char (char_of (48 + n mod 10 :: nat)) :: nat) = 48 + n mod 10"
      by (rule of_char_digit)
    from False "1.prems" have "c \<in> set (str_nat (n div 10)) \<or> c = char_of (48 + n mod 10)"
      by (auto simp: str_nat_step)
    then show ?thesis
    proof
      assume "c \<in> set (str_nat (n div 10))"
      with "1.IH" False show ?thesis by blast
    next
      assume "c = char_of (48 + n mod 10)"
      with d show ?thesis by simp
    qed
  qed
qed


lemma char_value_weight: "char_value (i, c) = char_value (0, c) * 2 ^ i"
  by (simp add: char_value_def Let_def)

lemma sum_list_enumerate:
  "sum_list (map char_value (enumerate k xs)) =
     (\<Sum>i = 0..<length xs. char_value (0, xs ! i) * 2 ^ (k + i))"
proof (induction xs arbitrary: k)
  case Nil
  then show ?case by simp
next
  case (Cons x xs)
  have "(\<Sum>i = 0..<length (x # xs). char_value (0, (x # xs) ! i) * 2 ^ (k + i)) =
        char_value (0, x) * 2 ^ k + (\<Sum>i = 0..<length xs. char_value (0, xs ! i) * 2 ^ (Suc k + i))"
    unfolding length_Cons sum.atLeast0_lessThan_Suc_shift by simp
  moreover have "char_value (k, x) = char_value (0, x) * 2 ^ k"
    by (rule char_value_weight)
  ultimately show ?case using Cons.IH [of "Suc k"] by simp
qed


lemma of_char_int: "(of_char c :: int) = int (of_char c)"
  by (simp add: of_nat_of_char)

lemma spec_value_digit:
  "48 \<le> (of_char c :: nat) \<Longrightarrow> (of_char c :: nat) \<le> 57 \<Longrightarrow>
   spec_value c = Some (char_value (0, c))"
  by (simp add: spec_value_def char_value_def Let_def less_eq_char_def of_char_int)

lemma spec_value_letter:
  "65 \<le> (of_char c :: nat) \<Longrightarrow> (of_char c :: nat) \<le> 90 \<Longrightarrow>
   spec_value c = Some (char_value (0, c))"
  by (simp add: spec_value_def char_value_def Let_def less_eq_char_def of_char_int)

lemma of_char_letter: "(of_char (char_of (65 + r mod 26 :: nat)) :: nat) = 65 + r mod 26"
proof -
  have "r mod 26 < 26" by simp
  then have "65 + r mod 26 < 256" by linarith
  then show ?thesis by (simp add: of_char_of)
qed

lemma those_map_spec_value:
  "\<forall>c \<in> set s. spec_value c = Some (char_value (0, c)) \<Longrightarrow>
   those (map spec_value s) = Some (map (\<lambda>c. char_value (0, c)) s)"
  by (induction s) simp_all

lemma spec_check_digit_eq:
  assumes "\<forall>c \<in> set s. spec_value c = Some (char_value (0, c))" and "length s = 10"
  shows "spec_check_digit s = Some (check_digit s)"
proof -
  have "(\<Sum>i = 0..<10. map (\<lambda>c. char_value (0, c)) s ! i * 2 ^ i) =
        (\<Sum>i = 0..<length s. char_value (0, s ! i) * 2 ^ (0 + i))"
    using assms(2) by simp
  also have "\<dots> = sum_list (map char_value (enumerate 0 s))"
    by (rule sum_list_enumerate [symmetric])
  finally show ?thesis
    using assms by (simp add: spec_check_digit_def check_digit_def those_map_spec_value)
qed

lemma check_digit_range: "0 \<le> check_digit s \<and> check_digit s < 10"
  by (simp add: check_digit_def)


lemma str_check_digit: "str (check_digit s) = [char_of (48 + nat (check_digit s))]"
proof -
  have "nat (check_digit s) < 10" using check_digit_range [of s] by linarith
  then show ?thesis using check_digit_range [of s] by (simp add: str_def str_nat_small)
qed

lemma is_digit_char_of: "d < 10 \<Longrightarrow> is_digit (char_of (48 + d :: nat))"
proof -
  assume "d < 10"
  then have "d \<in> set [0, 1, 2, 3, 4, 5, 6, 7, 8, 9]" by auto
  moreover have "\<forall>d \<in> set [0, 1, 2, 3, 4, 5, 6, 7, 8, 9 :: nat]. is_digit (char_of (48 + d))"
    by code_simp
  ultimately show ?thesis by blast
qed

lemma random_uppercase_letter_range:
  "65 \<le> (of_char (fst (random_uppercase_letter f)) :: nat) \<and>
   (of_char (fst (random_uppercase_letter f)) :: nat) \<le> 90"
proof -
  have "draws f (cursor f) mod 26 < 26" by simp
  then show ?thesis
    unfolding random_uppercase_letter_def next_draw_def Let_def prod.case fst_conv of_char_letter
    by linarith
qed

lemma random_number_6:
  "100000 \<le> nat (fst (random_number 6 True f)) \<and>
   nat (fst (random_number 6 True f)) < 1000000 \<and> 0 \<le> fst (random_number 6 True f)"
proof -
  have "draws f (cursor f) mod 900000 < 900000" by simp
  moreover have "fst (random_number 6 True f) = int (100000 + draws f (cursor f) mod 900000)"
    by (simp add: random_number_def next_draw_def Let_def)
  ultimately show ?thesis by linarith
qed

lemma generate_container_number_base:
  "\<exists>base. fst (generate_container_number f) = base @ str (check_digit base) \<and> length base = 10 \<and>
      (\<forall>c \<in> set base. spec_value c = Some (char_value (0, c)))"
proof -
  obtain l1 f1 where r1: "random_uppercase_letter f = (l1, f1)" by fastforce
  obtain l2 f2 where r2: "random_uppercase_letter f1 = (l2, f2)" by fastforce
  obtain l3 f3 where r3: "random_uppercase_letter f2 = (l3, f3)" by fastforce
  obtain n f4 where r4: "random_number 6 True f3 = (n, f4)" by fastforce
  let ?base = "[l1] @ [l2] @ [l3] @ ''U'' @ str n"
  have g: "fst (generate_container_number f) = ?base @ str (check_digit ?base)"
    by (simp add: generate_container_number_def r1 r2 r3 r4 Let_def)
  have n: "100000 \<le> nat n" "nat n < 1000000" "0 \<le> n"
    using random_number_6 [of f3] by (simp_all add: r4)
  then have sn: "str n = str_nat (nat n)" by (simp add: str_def)
  have len: "length ?base = 10" using n by (simp add: sn length_str_nat_6)
  have v1: "spec_value l1 = Some (char_value (0, l1))"
    using random_uppercase_letter_range [of f] by (simp add: r1 spec_value_letter)
  have v2: "spec_value l2 = Some (char_value (0, l2))"
    using random_uppercase_letter_range [of f1] by (simp add: r2 spec_value_letter)
  have v3: "spec_value l3 = Some (char_value (0, l3))"
    using random_uppercase_letter_range [of f2] by (simp add: r3 spec_value_letter)
  have vU: "spec_value CHR ''U'' = Some (char_value (0, CHR ''U''))"
    by (rule spec_value_letter) simp_all
  have vd: "\<forall>c \<in> set (str n). spec_value c = Some (char_value (0, c))"
    using str_nat_digits by (auto simp: sn intro: spec_value_digit)
  from g len v1 v2 v3 vU vd show ?thesis by (intro exI [of _ ?base]) simp
qed

text \<open>
  Claim C1. Every container number the generator produces has 11 characters, its 11th
  character is a decimal digit, and recomputing the check digit from the first 10
  characters the way the specification words it (\<open>spec_check_digit\<close>) gives that
  11th character. It holds for every state of the random source.
\<close>

theorem container_number_check_digit:
  "(let cn = fst (generate_container_number f) in
      length cn = 11 \<and> is_digit (cn ! 10) \<and>
      map_option str (spec_check_digit (take 10 cn)) = Some [cn ! 10])"
proof -
  obtain base where b: "fst (generate_container_number f) = base @ str (check_digit base)"
      "length base = 10" "\<forall>c \<in> set base. spec_value c = Some (char_value (0, c))"
    using generate_container_number_base by blast
  have d: "nat (check_digit base) < 10" using check_digit_range [of base] by linarith
  have s: "spec_check_digit base = Some (check_digit base)"
    using b(3) b(2) by (rule spec_check_digit_eq)
  show ?thesis
    using b(2) is_digit_char_of [OF d]
    by (simp add: b(1) Let_def str_check_digit s nth_append)
qed

section \<open>The fetch helper and the name sources\<close>

text \<open>
  Whatever the network answers, \<open>get_wikipedia_data\<close> sends one request and never
  sleeps: a 429 answer makes \<open>raise_for_status\<close> raise before the rate-limit branch is
  reached, so the self-call is dead code.
\<close>

lemma get_wikipedia_data_once:
  "snd (get_wikipedia_data url n) = n\<lparr>requests_sent := Suc (requests_sent n)\<rparr>"
  by (subst get_wikipedia_data.simps) (auto split: response.splits simp: raise_for_status_def)

lemma get_wikipedia_data_result:
  "fst (get_wikipedia_data url n) =
     (case replies n (requests_sent n) url of
        HttpResponse st body \<Rightarrow> if 400 \<le> st \<and> st < 600 then None else Some body
      | _ \<Rightarrow> None)"
  by (subst get_wikipedia_data.simps) (auto split: response.splits simp: raise_for_status_def)

text \<open>
  Claim C4, evaluated on the code: on a rate-limited first answer the helper returns
  \<open>None\<close> after a single request, with no back-off delay and no retry, although the
  second answer would have been the page.
\<close>

theorem rate_limited_fetch_gives_up:
  "get_wikipedia_data url rate_limited_net = (None, rate_limited_net\<lparr>requests_sent := 1\<rparr>)"
  by (simp add: prod_eq_iff get_wikipedia_data_once get_wikipedia_data_result rate_limited_net_def)

lemma scrape_container_ports_failure:
  "fst (get_wikipedia_data ''https://en.wikipedia.org/wiki/List_of_busiest_container_ports'' n) = None
   \<Longrightarrow> fst (scrape_container_ports wikitables n) = []"
  by (simp add: scrape_container_ports_def Let_def split_beta)

lemma scrape_container_ports_no_table:
  "fst (get_wikipedia_data ''https://en.wikipedia.org/wiki/List_of_busiest_container_ports'' n) = Some page
   \<Longrightarrow> page \<noteq> [] \<Longrightarrow> find_wikitables wikitables page = []
   \<Longrightarrow> fst (scrape_container_ports wikitables n) = fallback_ports"
  by (simp add: scrape_container_ports_def Let_def split_beta)

text \<open>
  Claim C3, evaluated on the code: against an unreachable endpoint the port source
  returns the empty list, not the fallback list. The fallback list is returned only
  when a page was fetched and holds no table (\<open>scrape_container_ports_no_table\<close>).
\<close>

theorem unreachable_ports_empty:
  "fst (scrape_container_ports wikitables unreachable_net) = []"
  by (simp add: scrape_container_ports_def Let_def split_beta get_wikipedia_data_result
        unreachable_net_def)

section \<open>Rules for contracts\<close>

lemma tripleI:
  "(\<And>w. P w \<Longrightarrow> (case m w of (Inr a, w') \<Rightarrow> Q a w' | (Inl e, w') \<Rightarrow> E w')) \<Longrightarrow> triple P m Q E"
  by (simp add: triple_def)

lemma triple_Inr: "triple P m Q E \<Longrightarrow> P w \<Longrightarrow> m w = (Inr a, w') \<Longrightarrow> Q a w'"
  by (auto simp: triple_def)

lemma triple_Inl: "triple P m Q E \<Longrightarrow> P w \<Longrightarrow> m w = (Inl e, w') \<Longrightarrow> E w'"
  by (auto simp: triple_def)

lemma triple_pre: "triple P' m Q E \<Longrightarrow> (\<And>w. P w \<Longrightarrow> P' w) \<Longrightarrow> triple P m Q E"
  by (auto simp: triple_def)

lemma triple_post:
  "triple P m Q' E' \<Longrightarrow> (\<And>a w. Q' a w \<Longrightarrow> Q a w) \<Longrightarrow> (\<And>w. E' w \<Longrightarrow> E w) \<Longrightarrow> triple P m Q E"
  by (fastforce simp: triple_def split: prod.splits sum.splits)

lemma triple_return: "triple (Q a) (return a) Q E"
  by (simp add: triple_def return_def)

lemma triple_raise: "triple E (raise e) Q E"
  by (simp add: triple_def raise_def)

lemma triple_and_then:
  "(\<And>a. triple (R a) (k a) Q E) \<Longrightarrow> triple P m R E \<Longrightarrow> triple P (and_then m k) Q E"
  by (fastforce simp: triple_def and_then_def split: prod.splits sum.splits)

lemma triple_draw:
  "triple (\<lambda>w. Q (fst (g (fake w))) (w\<lparr>fake := snd (g (fake w))\<rparr>)) (draw g) Q E"
  by (simp add: triple_def draw_def split_beta)

lemma triple_draw_or_raise:
  "triple (\<lambda>w. case fst (g (fake w)) of
                  Inr a \<Rightarrow> Q a (w\<lparr>fake := snd (g (fake w))\<rparr>)
                | Inl e \<Rightarrow> E (w\<lparr>fake := snd (g (fake w))\<rparr>))
     (draw_or_raise g) Q E"
  by (simp add: triple_def draw_or_raise_def split_beta split: sum.splits)

lemma triple_subscript:
  "triple (\<lambda>w. case d k of None \<Rightarrow> E w | Some v \<Rightarrow> Q v w) (subscript d k) Q E"
  by (simp add: triple_def subscript_def return_def raise_def split: option.splits)

lemma triple_execute:
  "triple (\<lambda>w. if aborted (db w) \<or> faults (db w) (executed (db w))
                then E (w\<lparr>db := (db w)\<lparr>executed := Suc (executed (db w)), aborted := True\<rparr>\<rparr>)
                else Q (fst (st (db w)))
                       (w\<lparr>db := (snd (st (db w)))\<lparr>executed := Suc (executed (db w))\<rparr>\<rparr>))
     (execute st) Q E"
  by (simp add: triple_def execute_def Let_def split_beta)

lemma triple_for_each:
  assumes "\<And>ys x zs a. xs = ys @ x # zs \<Longrightarrow> triple (I ys a) (body x a) (I (ys @ [x])) E"
  shows "triple (I [] acc) (for_each xs body acc) (I xs) E"
proof -
  have "\<And>ys acc. (\<And>ys' x zs a. ys @ xs' = ys' @ x # zs \<Longrightarrow> length ys \<le> length ys' \<Longrightarrow> triple (I ys' a) (body x a) (I (ys' @ [x])) E)
     \<Longrightarrow> triple (I ys acc) (for_each xs' body acc) (I (ys @ xs')) E" for xs'
  proof (induction xs')
    case Nil
    then show ?case by (simp add: triple_def)
  next
    case (Cons x xs')
    have step: "triple (I ys acc) (body x acc) (I (ys @ [x])) E"
      by (rule Cons.prems) simp_all
    have rest: "triple (I (ys @ [x]) a) (for_each xs' body a) (I ((ys @ [x]) @ xs')) E" for a
      by (rule Cons.IH) (use Cons.prems in auto)
    show ?case
      using step rest
      by (fastforce simp: triple_def split: prod.splits sum.splits)
  qed
  from this [of "[]" xs acc] assms show ?thesis by simp
qed


lemma triple_if:
  "triple P1 m1 Q E \<Longrightarrow> triple P2 m2 Q E \<Longrightarrow>
   triple (\<lambda>w. if b then P1 w else P2 w) (if b then m1 else m2) Q E"
  by simp

lemma triple_case_prod:
  "(\<And>a b. triple (P a b) (f a b) Q E) \<Longrightarrow>
   triple (case x of (a, b) \<Rightarrow> P a b) (case x of (a, b) \<Rightarrow> f a b) Q E"
  by (cases x) simp

lemmas triple_steps =
  triple_and_then triple_return triple_raise triple_draw triple_draw_or_raise
  triple_subscript triple_execute triple_if triple_case_prod

lemma triple_for_each_inv:
  assumes "\<And>x a. x \<in> set xs \<Longrightarrow> triple (I a) (body x a) I E"
  shows "triple (I acc) (for_each xs body acc) I E"
  by (rule triple_for_each [where I = "\<lambda>_. I"]) (rule assms, simp)

lemma triple_snd: "triple P m (\<lambda>_. R) R \<Longrightarrow> P w \<Longrightarrow> R (snd (m w))"
proof -
  assume t: "triple P m (\<lambda>_. R) R" and p: "P w"
  obtain r w' where m: "m w = (r, w')" by (cases "m w")
  from t p m show ?thesis by (cases r) (auto simp: triple_def)
qed


lemma triple_assume: "(C \<Longrightarrow> triple P m Q E) \<Longrightarrow> triple (\<lambda>w. C \<and> P w) m Q E"
  by (auto simp: triple_def)

lemmas run_simps =
  and_then_def execute_def draw_def draw_or_raise_def subscript_def return_def raise_def
  py_range_def Let_def split_beta next_draw_def dict_of_def select_lookup_def nextval_def
  random_int_def random_element_def random_elements_unique_2_def random_number_def
  seeded_world_def seeded_tables_def no_tables_def store_def counting_faker_def upto.simps

section \<open>Rows of the container stage\<close>

lemma containers_added_fake [simp]:
  "containers_added ok old (w\<lparr>fake := f\<rparr>) = containers_added ok old w"
  by (simp add: containers_added_def)

lemma random_element_in: "fst (random_element xs f) = Inr x \<Longrightarrow> x \<in> set xs"
  by (auto simp: random_element_def Let_def split_beta split: if_splits)

lemma populate_containers_body_rows:
  "triple (containers_added (vessel_rule vessel_ids) old)
     (populate_containers_body type_ids vessel_ids sid i n)
     (\<lambda>_. containers_added (vessel_rule vessel_ids) old)
     (containers_added (vessel_rule vessel_ids) old)"
  unfolding populate_containers_body_def
  apply (rule triple_pre)
   apply (rule triple_steps)+
  apply (auto simp: containers_added_def vessel_rule_def insert_container_def Let_def
           split: sum.splits option.splits dest: random_element_in)
  done

lemma populate_containers_shipment_rows:
  "triple (containers_added (vessel_rule vessel_ids) old)
     (populate_containers_shipment type_ids vessel_ids sid n)
     (\<lambda>_. containers_added (vessel_rule vessel_ids) old)
     (containers_added (vessel_rule vessel_ids) old)"
  unfolding populate_containers_shipment_def
  apply (rule triple_pre)
   apply (rule triple_and_then)
    apply (rule triple_for_each_inv)
    apply (rule populate_containers_body_rows)
   apply (rule triple_draw)
  apply simp
  done

lemma populate_containers_rows:
  "triple (containers_added (vessel_rule vessel_ids) old)
     (populate_containers shipment_ids vessel_ids)
     (\<lambda>_. containers_added (vessel_rule vessel_ids) old)
     (containers_added (vessel_rule vessel_ids) old)"
  unfolding populate_containers_def
  apply (rule triple_pre)
   apply (rule triple_and_then)
    apply (rule triple_for_each_inv)
    apply (rule populate_containers_shipment_rows)
   apply (rule triple_execute)
  apply (simp add: containers_added_def select_lookup_def)
  done

text \<open>
  Claim C10. Whatever the stage is given and however it ends, every container row it
  adds obeys \<open>vessel_rule\<close>: the vessel reference is null exactly when the list of
  generated vessels is empty, and otherwise it is one of the ids of that list.
\<close>

theorem containers_vessel_reference:
  "\<exists>new. container (pending (db (snd (populate_containers shipment_ids vessel_ids w)))) =
            container (pending (db w)) @ new \<and>
          list_all (vessel_rule vessel_ids) new"
proof -
  have "containers_added (vessel_rule vessel_ids) (container (pending (db w))) w"
    by (simp add: containers_added_def)
  with populate_containers_rows
  have "containers_added (vessel_rule vessel_ids) (container (pending (db w)))
          (snd (populate_containers shipment_ids vessel_ids w))"
    by (rule triple_snd)
  then show ?thesis by (simp add: containers_added_def)
qed


lemma seeded_containers:
  "map container_vessel_id
     (container (pending (db (snd (populate_containers [1] [7, 8] seeded_world))))) = [Some 7]"
  by (simp add: populate_containers_def populate_containers_shipment_def
        populate_containers_body_def run_simps insert_container_def
        generate_container_number_def random_uppercase_letter_def container_types_def)

theorem containers_vessel_reference_witness:
  "map container_vessel_id
     (container (pending (db (snd (populate_containers [1] [7, 8] seeded_world))))) = [Some 7] \<and>
   (\<exists>new. container (pending (db (snd (populate_containers [1] [7, 8] seeded_world)))) =
            container (pending (db seeded_world)) @ new \<and>
          list_all (vessel_rule [7, 8]) new)"
  using containers_vessel_reference [of "[1]" "[7, 8]" seeded_world] seeded_containers
  by simp

section \<open>Rows of the shipment stage\<close>

lemma shipments_added_fake [simp]:
  "shipments_added ok old (w\<lparr>fake := f\<rparr>) = shipments_added ok old w"
  by (simp add: shipments_added_def)

lemma random_elements_unique_2_distinct:
  assumes "distinct xs" and "fst (random_elements_unique_2 xs f) = Inr (a, b)"
  shows "a \<noteq> b"
proof -
  from assms(2) have len: "2 \<le> length xs"
    by (auto simp: random_elements_unique_2_def split: if_splits)
  define i where "i = draws f (cursor f) mod length xs"
  define j0 where "j0 = draws f (Suc (cursor f)) mod (length xs - 1)"
  define j where "j = (if j0 < i then j0 else Suc j0)"
  have p: "0 < length xs" and q: "0 < length xs - 1" using len by linarith+
  have i: "i < length xs" unfolding i_def using p by (rule mod_less_divisor)
  have "j0 < length xs - 1" unfolding j0_def using q by (rule mod_less_divisor)
  then have j: "j < length xs" and ij: "i \<noteq> j" by (auto simp: j_def)
  from assms(2) len have "a = xs ! i" "b = xs ! j"
    by (auto simp: random_elements_unique_2_def next_draw_def Let_def i_def j0_def j_def)
  with i j ij assms(1) show ?thesis by (simp add: nth_eq_iff_index_eq)
qed

lemma dict_of_in: "dict_of (map (\<lambda>(i, name). (name, i)) rows) k = Some v \<Longrightarrow> (v, k) \<in> set rows"
  by (auto simp: dict_of_def rev_map [symmetric] dest!: map_of_SomeD)

lemma status_ruleI:
  assumes "name \<in> set status_options" and "(i, name) \<in> set rows"
  shows "status_rule rows (row\<lparr>shipment_status_id := i\<rparr>)"
proof -
  have "name \<noteq> ''DELIVERED''" using assms(1) by (auto simp: status_options_def)
  moreover have "distinct (map fst rows) \<Longrightarrow> (i, ''DELIVERED'') \<in> set rows \<Longrightarrow> name = ''DELIVERED''"
    using assms(2) by (meson eq_key_imp_eq_value)
  ultimately show ?thesis using assms by (auto simp: status_rule_def)
qed


lemma populate_shipments_body_rows:
  assumes ids: "\<And>k v. status_ids k = Some v \<Longrightarrow> (v, k) \<in> set rows"
  shows "triple (shipments_added (shipment_rule rows ports) old)
     (populate_shipments_body status_ids ports cid i ids)
     (\<lambda>_. shipments_added (shipment_rule rows ports) old)
     (shipments_added (shipment_rule rows ports) old)"
  unfolding populate_shipments_body_def
  apply (rule triple_pre)
   apply (rule triple_steps)+
  apply (auto simp: shipments_added_def shipment_rule_def distinct_ends_def insert_shipment_def
           nextval_def Let_def split_beta
           split: sum.splits option.splits
           dest: random_element_in random_elements_unique_2_distinct ids
           intro!: status_ruleI [where row = "\<lparr>shipment_id = _, shipment_client_id = _, shipment_status_id = _, bill_of_lading_no = _, origin = _, destination = _, declared_value = _\<rparr>", simplified])
  done


lemma populate_shipments_client_rows:
  assumes ids: "\<And>k v. status_ids k = Some v \<Longrightarrow> (v, k) \<in> set rows"
  shows "triple (shipments_added (shipment_rule rows ports) old)
     (populate_shipments_client status_ids ports cid ids)
     (\<lambda>_. shipments_added (shipment_rule rows ports) old)
     (shipments_added (shipment_rule rows ports) old)"
  unfolding populate_shipments_client_def
  apply (rule triple_pre)
   apply (rule triple_and_then)
    apply (rule triple_for_each_inv)
    apply (rule populate_shipments_body_rows)
    apply (erule ids)
   apply (rule triple_draw)
  apply simp
  done

lemma populate_shipments_rows:
  "triple (\<lambda>w. lookup (pending (db w)) ShipmentStatus = rows \<and>
               shipments_added (shipment_rule rows ports) old w)
     (populate_shipments client_ids ports)
     (\<lambda>_. shipments_added (shipment_rule rows ports) old)
     (shipments_added (shipment_rule rows ports) old)"
  unfolding populate_shipments_def
  apply (rule triple_pre)
   apply (rule triple_and_then
      [where R = "\<lambda>a w. a = map (\<lambda>(i, name). (name, i)) rows \<and>
                          shipments_added (shipment_rule rows ports) old w"])
    apply (rule triple_assume)
    apply (rule triple_for_each_inv)
    apply (rule populate_shipments_client_rows)
    apply (simp add: dict_of_in)
   apply (rule triple_execute)
  apply (simp add: select_lookup_def shipments_added_def)
  done

lemma shipments_added_rule:
  "shipments_added (shipment_rule (lookup (pending (db w)) ShipmentStatus) ports)
     (shipment (pending (db w))) (snd (populate_shipments client_ids ports w))"
  by (rule triple_snd [OF populate_shipments_rows]) (simp add: shipments_added_def)

text \<open>
  Claim C9. Every shipment row the stage adds has the status id of a lookup row whose
  name is one of PENDING, IN\_TRANSIT, AWAITING\_CUSTOMS, CLEARED; with unique ids in
  the lookup table that is never the id of the DELIVERED row.
\<close>

theorem shipments_never_delivered:
  "\<exists>new. shipment (pending (db (snd (populate_shipments client_ids ports w)))) =
            shipment (pending (db w)) @ new \<and>
          list_all (status_rule (lookup (pending (db w)) ShipmentStatus)) new"
  using shipments_added_rule [of w ports client_ids]
  by (auto simp: shipments_added_def shipment_rule_def list_all_iff)

text \<open>
  What \<open>unique=True\<close> does give: when the port list holds no name twice, origin and
  destination of every shipment row the stage adds are different.
\<close>

lemma shipments_distinct_ports:
  "distinct ports \<Longrightarrow>
   \<exists>new. shipment (pending (db (snd (populate_shipments client_ids ports w)))) =
            shipment (pending (db w)) @ new \<and>
          list_all distinct_ends new"
  using shipments_added_rule [of w ports client_ids]
  by (auto simp: shipments_added_def shipment_rule_def list_all_iff)

lemma unique_attempts_fresh:
  "retval \<notin> set (generated f) \<Longrightarrow>
   unique_attempts (numeral k) retval f = (Inr retval, f\<lparr>generated := retval # generated f\<rparr>)"
  by (simp add: numeral_eq_Suc)

lemma bothify_BLD_inj:
  "a < 10 \<Longrightarrow> b < 10 \<Longrightarrow> a \<noteq> b \<Longrightarrow> zero_pad 9 (str_nat a) \<noteq> zero_pad 9 (str_nat b)"
  by (simp add: zero_pad_def str_nat.simps)

lemma seeded_shipments_same:
  "map (\<lambda>r. (origin r, destination r, shipment_status_id r))
     (shipment (pending (db (snd (populate_shipments [1] [''Shanghai'', ''Shanghai''] seeded_world))))) =
   [(''Shanghai'', ''Shanghai'', 4), (''Shanghai'', ''Shanghai'', 1)]"
  by (simp add: populate_shipments_def populate_shipments_client_def populate_shipments_body_def
        run_simps insert_shipment_def status_options_def unique_bothify_BLD_def bothify_BLD_def
        unique_attempts_fresh bothify_BLD_inj)


theorem shipments_never_delivered_witness:
  "distinct (map fst (lookup (pending (db seeded_world)) ShipmentStatus)) \<and>
   map shipment_status_id
     (shipment (pending (db (snd (populate_shipments [1] [''Shanghai'', ''Shanghai''] seeded_world))))) =
     [4, 1] \<and>
   (\<exists>new. shipment (pending (db (snd (populate_shipments [1] [''Shanghai'', ''Shanghai''] seeded_world)))) =
            shipment (pending (db seeded_world)) @ new \<and>
          list_all (status_rule (lookup (pending (db seeded_world)) ShipmentStatus)) new)"
proof -
  have "map shipment_status_id
     (shipment (pending (db (snd (populate_shipments [1] [''Shanghai'', ''Shanghai''] seeded_world))))) =
     map (\<lambda>(a, b, c). c) [(''Shanghai'', ''Shanghai'', 4), (''Shanghai'', ''Shanghai'', 1)]"
    unfolding seeded_shipments_same [symmetric] by (simp add: comp_def)
  moreover have "distinct (map fst (lookup (pending (db seeded_world)) ShipmentStatus))"
    by (simp add: seeded_world_def seeded_tables_def no_tables_def store_def)
  ultimately show ?thesis
    using shipments_never_delivered [of "[1]" "[''Shanghai'', ''Shanghai'']" seeded_world]
    by simp
qed

text \<open>
  Claim C5, evaluated on the code: origin and destination of a shipment must differ, and
  \<open>random_elements(ports, unique=True, length=2)\<close> is the code's attempt at it, but it
  samples two positions of the list, not two names. With a port list that holds the
  same name twice (nothing removes duplicates from the scraped names) the stage adds
  shipments whose origin is their destination.
\<close>

theorem shipment_same_origin_destination:
  "\<not> list_all distinct_ends
      (shipment (pending (db (snd (populate_shipments [1] [''Shanghai'', ''Shanghai''] seeded_world)))))"
proof
  assume "list_all distinct_ends
      (shipment (pending (db (snd (populate_shipments [1] [''Shanghai'', ''Shanghai''] seeded_world)))))"
  then have "list_all (\<lambda>(a, b, c). a \<noteq> b)
      (map (\<lambda>r. (origin r, destination r, shipment_status_id r))
        (shipment (pending (db (snd (populate_shipments [1] [''Shanghai'', ''Shanghai''] seeded_world))))))"
    by (simp add: list_all_iff distinct_ends_def)
  then show False unfolding seeded_shipments_same by simp
qed

section \<open>The lookup seeder\<close>

lemma populate_lookup_tables_quiet:
  assumes a: "\<not> aborted (db w)" and f: "\<forall>k. \<not> faults (db w) k"
    and e: "\<forall>l. lookup (pending (db w)) l = []"
  shows "\<exists>w1. populate_lookup_tables w = (Inr (), w1) \<and>
          map snd (lookup (pending (db w1)) ShipmentStatus) = statuses \<and>
          map snd (lookup (pending (db w1)) ContainerType) = container_types \<and>
          map snd (lookup (pending (db w1)) BerthStatus) = berth_statuses \<and>
          committed (db w1) = pending (db w1) \<and> \<not> aborted (db w1) \<and> faults (db w1) = faults (db w)"
proof -
  from f have f': "faults (db w) = (\<lambda>_. False)" by auto
  from e have e': "lookup (pending (db w)) = (\<lambda>_. [])" by auto
  show ?thesis
    using a
    by (simp add: populate_lookup_tables_def statuses_def container_types_def berth_statuses_def
          and_then_def execute_def insert_lookup_def nextval_def commit_def Let_def split_beta f' e')
qed


lemma populate_lookup_tables_again:
  assumes a: "\<not> aborted (db w)" and f: "\<forall>k. \<not> faults (db w) k"
    and s: "set statuses \<subseteq> snd ` set (lookup (pending (db w)) ShipmentStatus)"
    and c: "set container_types \<subseteq> snd ` set (lookup (pending (db w)) ContainerType)"
    and b: "set berth_statuses \<subseteq> snd ` set (lookup (pending (db w)) BerthStatus)"
  shows "\<exists>w2. populate_lookup_tables w = (Inr (), w2) \<and>
          pending (db w2) = pending (db w) \<and> committed (db w2) = pending (db w)"
proof -
  from f have f': "faults (db w) = (\<lambda>_. False)" by auto
  show ?thesis
    using a s c b
    by (simp add: populate_lookup_tables_def statuses_def container_types_def berth_statuses_def
          and_then_def execute_def insert_lookup_def nextval_def commit_def Let_def split_beta f')
qed

text \<open>
  Claim C7: on a store that answers every statement, the lookup seeder run on empty
  lookup tables and then run again succeeds both times. After the first run the three
  tables hold exactly the fixed names (5 shipment statuses, 4 container types, 3 berth
  statuses), and the second run leaves the committed tables as the first left them: no
  row is added twice.
\<close>

theorem lookup_seeding_idempotent:
  assumes "\<not> aborted (db w)" and "\<forall>k. \<not> faults (db w) k"
    and "\<forall>l. lookup (pending (db w)) l = []"
  shows "\<exists>w1 w2. populate_lookup_tables w = (Inr (), w1) \<and>
           populate_lookup_tables w1 = (Inr (), w2) \<and>
           map snd (lookup (committed (db w1)) ShipmentStatus) = statuses \<and>
           map snd (lookup (committed (db w1)) ContainerType) = container_types \<and>
           map snd (lookup (committed (db w1)) BerthStatus) = berth_statuses \<and>
           length (lookup (committed (db w1)) ShipmentStatus) = 5 \<and>
           length (lookup (committed (db w1)) ContainerType) = 4 \<and>
           length (lookup (committed (db w1)) BerthStatus) = 3 \<and>
           committed (db w2) = committed (db w1)"
proof -
  from populate_lookup_tables_quiet [OF assms] obtain w1 where
    w1: "populate_lookup_tables w = (Inr (), w1)"
      "map snd (lookup (pending (db w1)) ShipmentStatus) = statuses"
      "map snd (lookup (pending (db w1)) ContainerType) = container_types"
      "map snd (lookup (pending (db w1)) BerthStatus) = berth_statuses"
      "committed (db w1) = pending (db w1)" "\<not> aborted (db w1)" "faults (db w1) = faults (db w)"
    by blast
  have f1: "\<forall>k. \<not> faults (db w1) k" using assms(2) w1(7) by simp
  have s: "set statuses \<subseteq> snd ` set (lookup (pending (db w1)) ShipmentStatus)"
    using w1(2) by (metis set_map subset_refl)
  have c: "set container_types \<subseteq> snd ` set (lookup (pending (db w1)) ContainerType)"
    using w1(3) by (metis set_map subset_refl)
  have b: "set berth_statuses \<subseteq> snd ` set (lookup (pending (db w1)) BerthStatus)"
    using w1(4) by (metis set_map subset_refl)
  from populate_lookup_tables_again [OF w1(6) f1 s c b] obtain w2 where
    w2: "populate_lookup_tables w1 = (Inr (), w2)" "committed (db w2) = pending (db w1)"
    by blast
  have l: "length (lookup (committed (db w1)) ShipmentStatus) = length statuses"
      "length (lookup (committed (db w1)) ContainerType) = length container_types"
      "length (lookup (committed (db w1)) BerthStatus) = length berth_statuses"
    using w1(2,3,4,5) by (metis length_map)+
  show ?thesis
    using w1 w2 l by (simp add: statuses_def container_types_def berth_statuses_def)
qed

theorem lookup_seeding_idempotent_witness:
  "\<not> aborted (db fresh_world) \<and> (\<forall>k. \<not> faults (db fresh_world) k) \<and>
   (\<forall>l. lookup (pending (db fresh_world)) l = []) \<and>
   (\<exists>w1 w2. populate_lookup_tables fresh_world = (Inr (), w1) \<and>
           populate_lookup_tables w1 = (Inr (), w2) \<and>
           map snd (lookup (committed (db w1)) ShipmentStatus) = statuses \<and>
           map snd (lookup (committed (db w1)) ContainerType) = container_types \<and>
           map snd (lookup (committed (db w1)) BerthStatus) = berth_statuses \<and>
           length (lookup (committed (db w1)) ShipmentStatus) = 5 \<and>
           length (lookup (committed (db w1)) ContainerType) = 4 \<and>
           length (lookup (committed (db w1)) BerthStatus) = 3 \<and>
           committed (db w2) = committed (db w1))"
proof -
  have h: "\<not> aborted (db fresh_world)" "\<forall>k. \<not> faults (db fresh_world) k"
    "\<forall>l. lookup (pending (db fresh_world)) l = []"
    by (simp_all add: fresh_world_def store_def no_tables_def)
  show ?thesis
    using lookup_seeding_idempotent [OF h] h by blast
qed

section \<open>The berth stage\<close>

lemma berths_loop:
  "for_each xs (populate_berths_body d vs) acc w = (Inr ids, w') \<Longrightarrow>
   length ids = length acc + length xs \<and>
   lookup (pending (db w')) = lookup (pending (db w)) \<and>
   (\<exists>new. berth (pending (db w')) = berth (pending (db w)) @ new \<and>
     map berth_fields new =
     map (\<lambda>i. (''B'' @ zero_pad 3 (str i),
                d (if i \<le> int (length vs) then ''OCCUPIED'' else ''AVAILABLE''),
                if i \<le> int (length vs) then Some (vs ! nat (i - 1)) else None)) xs)"
proof (induction xs arbitrary: acc w)
  case Nil
  then show ?case by simp
next
  case (Cons i xs)
  obtain r w1 where b: "populate_berths_body d vs i acc w = (r, w1)"
    by (cases "populate_berths_body d vs i acc w")
  with Cons.prems obtain acc1 where r: "r = Inr acc1"
    and rest: "for_each xs (populate_berths_body d vs) acc1 w1 = (Inr ids, w')"
    by (cases r) auto
  from Cons.IH [OF rest] obtain new where
    new: "length ids = length acc1 + length xs"
      "lookup (pending (db w')) = lookup (pending (db w1))"
      "berth (pending (db w')) = berth (pending (db w1)) @ new"
      "map berth_fields new =
       map (\<lambda>i. (''B'' @ zero_pad 3 (str i),
                d (if i \<le> int (length vs) then ''OCCUPIED'' else ''AVAILABLE''),
                if i \<le> int (length vs) then Some (vs ! nat (i - 1)) else None)) xs"
    by blast
  from b r have "length acc1 = Suc (length acc) \<and>
      lookup (pending (db w1)) = lookup (pending (db w)) \<and>
      (\<exists>row. berth (pending (db w1)) = berth (pending (db w)) @ [row] \<and>
      berth_fields row = (''B'' @ zero_pad 3 (str i),
                d (if i \<le> int (length vs) then ''OCCUPIED'' else ''AVAILABLE''),
                if i \<le> int (length vs) then Some (vs ! nat (i - 1)) else None))"
    by (auto simp: populate_berths_body_def and_then_def subscript_def execute_def return_def
          raise_def insert_berth_def nextval_def Let_def split_beta berth_fields_def
          split: option.splits if_splits)
  then obtain row where row: "length acc1 = Suc (length acc)"
      "lookup (pending (db w1)) = lookup (pending (db w))"
      "berth (pending (db w1)) = berth (pending (db w)) @ [row]"
      "berth_fields row = (''B'' @ zero_pad 3 (str i),
                d (if i \<le> int (length vs) then ''OCCUPIED'' else ''AVAILABLE''),
                if i \<le> int (length vs) then Some (vs ! nat (i - 1)) else None)"
    by blast
  have "\<exists>new'. berth (pending (db w')) = berth (pending (db w)) @ new' \<and>
     map berth_fields new' =
     map (\<lambda>i. (''B'' @ zero_pad 3 (str i),
                d (if i \<le> int (length vs) then ''OCCUPIED'' else ''AVAILABLE''),
                if i \<le> int (length vs) then Some (vs ! nat (i - 1)) else None)) (i # xs)"
    by (rule exI [of _ "row # new"]) (simp add: new row)
  then show ?case using new(1,2) row(1,2) by simp
qed

lemma berths_loop_succeeds:
  "\<not> aborted (db w) \<Longrightarrow> \<forall>k. \<not> faults (db w) k \<Longrightarrow> d ''OCCUPIED'' \<noteq> None \<Longrightarrow>
   d ''AVAILABLE'' \<noteq> None \<Longrightarrow>
   \<exists>ids w'. for_each xs (populate_berths_body d vs) acc w = (Inr ids, w')"
proof (induction xs arbitrary: acc w)
  case Nil
  then show ?case by simp
next
  case (Cons i xs)
  from Cons.prems have "\<exists>acc1 w1. populate_berths_body d vs i acc w = (Inr acc1, w1) \<and>
      \<not> aborted (db w1) \<and> faults (db w1) = faults (db w)"
    by (auto simp: populate_berths_body_def and_then_def subscript_def execute_def return_def
          raise_def insert_berth_def nextval_def Let_def split_beta)
  then obtain acc1 w1 where s: "populate_berths_body d vs i acc w = (Inr acc1, w1)"
      "\<not> aborted (db w1)" "faults (db w1) = faults (db w)"
    by blast
  from Cons.IH [of w1 acc1] s Cons.prems show ?case by simp
qed

lemma berth_numbers_1_20:
  "map (\<lambda>i. ''B'' @ zero_pad 3 (str i)) (py_range 1 21) =
   [''B001'', ''B002'', ''B003'', ''B004'', ''B005'', ''B006'', ''B007'', ''B008'',
    ''B009'', ''B010'', ''B011'', ''B012'', ''B013'', ''B014'', ''B015'', ''B016'',
    ''B017'', ''B018'', ''B019'', ''B020'']"
  by code_simp

lemma filter_prefix:
  "\<forall>k<length xs. P (xs ! k) = (k < n) \<Longrightarrow> filter P xs = take n xs"
proof (induction xs arbitrary: n)
  case Nil
  then show ?case by simp
next
  case (Cons x xs)
  show ?case
  proof (cases n)
    case 0
    with Cons.prems have "\<forall>y\<in>set (x # xs). \<not> P y"
      by (metis in_set_conv_nth not_less_zero)
    then show ?thesis using 0 by simp
  next
    case (Suc m)
    from Cons.prems have "P x" using Suc by (metis length_Cons nth_Cons_0 zero_less_Suc)
    moreover have "\<forall>k<length xs. P (xs ! k) = (k < m)"
      using Cons.prems Suc by (metis Suc_less_eq length_Cons nth_Cons_Suc)
    ultimately show ?thesis using Cons.IH [of m] Suc by simp
  qed
qed

lemma dict_of_some:
  "name \<in> snd ` set rows \<Longrightarrow> dict_of (map (\<lambda>(i, name). (name, i)) rows) name \<noteq> None"
proof -
  assume "name \<in> snd ` set rows"
  then obtain i where "(i, name) \<in> set rows" by auto
  then have "(name, i) \<in> set (rev (map (\<lambda>(i, name). (name, i)) rows))" by force
  then have "name \<in> fst ` set (rev (map (\<lambda>(i, name). (name, i)) rows))"
    by (metis fst_conv image_eqI)
  then show ?thesis
    unfolding dict_of_def map_of_eq_None_iff by simp
qed

lemma length_py_range_1_21: "length (py_range 1 21) = 20"
  by (simp add: py_range_def)

lemma nth_py_range_1_21: "k < 20 \<Longrightarrow> py_range 1 21 ! k = 1 + int k"
  by (simp add: py_range_def)

lemma berths_rows:
  assumes dr: "distinct (map fst rows)" and dv: "distinct vs"
    and len: "length new = 20"
    and f: "map berth_fields new =
     map (\<lambda>i. (''B'' @ zero_pad 3 (str i),
                dict_of (map (\<lambda>(i, name). (name, i)) rows)
                  (if i \<le> int (length vs) then ''OCCUPIED'' else ''AVAILABLE''),
                if i \<le> int (length vs) then Some (vs ! nat (i - 1)) else None)) (py_range 1 21)"
  shows "map berth_number new =
          [''B001'', ''B002'', ''B003'', ''B004'', ''B005'', ''B006'', ''B007'', ''B008'',
           ''B009'', ''B010'', ''B011'', ''B012'', ''B013'', ''B014'', ''B015'', ''B016'',
           ''B017'', ''B018'', ''B019'', ''B020'']"
    and "\<forall>k<20. berth_rule rows vs k (new ! k)"
    and "length (filter (occupied rows) new) = min 20 (length vs)"
    and "distinct (map berth_vessel_id (filter (occupied rows) new))"
proof -
  have "map berth_number new = map fst (map berth_fields new)"
    by (simp add: berth_fields_def comp_def)
  also have "\<dots> = map (\<lambda>i. ''B'' @ zero_pad 3 (str i)) (py_range 1 21)"
    unfolding f by (simp add: comp_def)
  finally show "map berth_number new =
          [''B001'', ''B002'', ''B003'', ''B004'', ''B005'', ''B006'', ''B007'', ''B008'',
           ''B009'', ''B010'', ''B011'', ''B012'', ''B013'', ''B014'', ''B015'', ''B016'',
           ''B017'', ''B018'', ''B019'', ''B020'']"
    by (simp only: berth_numbers_1_20)
  have names: "(i, a) \<in> set rows \<Longrightarrow> (i, b) \<in> set rows \<Longrightarrow> a = b" for i a b
    using dr by (meson eq_key_imp_eq_value)
  have at: "berth_fields (new ! k) =
      (''B'' @ zero_pad 3 (str (1 + int k)),
       dict_of (map (\<lambda>(i, name). (name, i)) rows)
         (if k < length vs then ''OCCUPIED'' else ''AVAILABLE''),
       if k < length vs then Some (vs ! k) else None)" if "k < 20" for k
  proof -
    have "berth_fields (new ! k) = map berth_fields new ! k"
      using that len by simp
    also have "\<dots> = (\<lambda>i. (''B'' @ zero_pad 3 (str i),
                dict_of (map (\<lambda>(i, name). (name, i)) rows)
                  (if i \<le> int (length vs) then ''OCCUPIED'' else ''AVAILABLE''),
                if i \<le> int (length vs) then Some (vs ! nat (i - 1)) else None)) (py_range 1 21 ! k)"
      unfolding f using that by (simp add: length_py_range_1_21)
    also have "\<dots> = (''B'' @ zero_pad 3 (str (1 + int k)),
       dict_of (map (\<lambda>(i, name). (name, i)) rows)
         (if k < length vs then ''OCCUPIED'' else ''AVAILABLE''),
       if k < length vs then Some (vs ! k) else None)"
      using that by (auto simp: nth_py_range_1_21)
    finally show ?thesis .
  qed
  show rule: "\<forall>k<20. berth_rule rows vs k (new ! k)"
  proof (intro allI impI)
    fix k :: nat
    assume k: "k < 20"
    show "berth_rule rows vs k (new ! k)"
    proof (cases "k < length vs")
      case True
      with at [OF k] have d: "dict_of (map (\<lambda>(i, name). (name, i)) rows) ''OCCUPIED'' =
          Some (berth_status_id (new ! k))" and v: "berth_vessel_id (new ! k) = Some (vs ! k)"
        by (simp_all add: berth_fields_def)
      from d have "(berth_status_id (new ! k), ''OCCUPIED'') \<in> set rows"
        by (rule dict_of_in)
      moreover from this have "(berth_status_id (new ! k), ''AVAILABLE'') \<notin> set rows"
        using names by fastforce
      ultimately show ?thesis using True v
        by (simp add: berth_rule_def occupied_def available_def)
    next
      case False
      with at [OF k] have d: "dict_of (map (\<lambda>(i, name). (name, i)) rows) ''AVAILABLE'' =
          Some (berth_status_id (new ! k))" and v: "berth_vessel_id (new ! k) = None"
        by (simp_all add: berth_fields_def)
      from d have "(berth_status_id (new ! k), ''AVAILABLE'') \<in> set rows"
        by (rule dict_of_in)
      moreover from this have "(berth_status_id (new ! k), ''OCCUPIED'') \<notin> set rows"
        using names by fastforce
      ultimately show ?thesis using False v
        by (simp add: berth_rule_def occupied_def available_def)
    qed
  qed
  have "\<forall>k<length new. occupied rows (new ! k) = (k < length vs)"
    using rule len by (auto simp: berth_rule_def split: if_splits)
  then have fp: "filter (occupied rows) new = take (length vs) new"
    by (rule filter_prefix)
  show "length (filter (occupied rows) new) = min 20 (length vs)"
    unfolding fp using len by simp
  show "distinct (map berth_vessel_id (filter (occupied rows) new))"
    unfolding fp distinct_conv_nth
  proof (intro allI impI)
    fix i j
    assume i: "i < length (map berth_vessel_id (take (length vs) new))"
      and j: "j < length (map berth_vessel_id (take (length vs) new))" and ij: "i \<noteq> j"
    from i j len have b: "i < 20" "j < 20" "i < length vs" "j < length vs" by simp_all
    have "berth_vessel_id (new ! i) = Some (vs ! i)" "berth_vessel_id (new ! j) = Some (vs ! j)"
      using rule b by (simp_all add: berth_rule_def)
    moreover have "vs ! i \<noteq> vs ! j"
      using dv b ij by (simp add: nth_eq_iff_index_eq)
    ultimately show "map berth_vessel_id (take (length vs) new) ! i \<noteq>
        map berth_vessel_id (take (length vs) new) ! j"
      using b len by simp
  qed
qed

text \<open>
  Claim C6: given vessel ids that are pairwise different (as ids handed out by the
  store are) and a BerthStatus table with unique ids, a run of the berth stage that
  returns has created exactly 20 berths, numbered B001 to B020 in this order; the berth
  at 1-based index \<open>i\<close> is OCCUPIED and refers to the \<open>i\<close>-th vessel when \<open>i\<close> is at most
  the number of vessels, and is AVAILABLE with no vessel otherwise; the OCCUPIED berths
  are min(20, number of vessels) many and no two of them refer to the same vessel. On a
  store that answers every statement and knows both status names, the stage returns.
\<close>

theorem berths_twenty:
  assumes "distinct (map fst (lookup (pending (db w)) BerthStatus))" and "distinct vessel_ids"
  shows "(\<forall>berth_ids w'. populate_berths vessel_ids w = (Inr berth_ids, w') \<longrightarrow>
            length berth_ids = 20 \<and>
            berths_added (lookup (pending (db w)) BerthStatus) vessel_ids
              (berth (pending (db w))) w') \<and>
         (\<not> aborted (db w) \<and> (\<forall>k. \<not> faults (db w) k) \<and>
          {''AVAILABLE'', ''OCCUPIED''} \<subseteq> snd ` set (lookup (pending (db w)) BerthStatus) \<longrightarrow>
          (\<exists>berth_ids w'. populate_berths vessel_ids w = (Inr berth_ids, w')))"
proof (intro conjI allI impI)
  fix berth_ids w'
  assume run: "populate_berths vessel_ids w = (Inr berth_ids, w')"
  define rows where "rows = lookup (pending (db w)) BerthStatus"
  define w0 where "w0 = w\<lparr>db := (db w)\<lparr>executed := Suc (executed (db w))\<rparr>\<rparr>"
  from run have loop: "for_each (py_range 1 21)
      (populate_berths_body (dict_of (map (\<lambda>(i, name). (name, i)) rows)) vessel_ids) [] w0 =
      (Inr berth_ids, w')"
    by (auto simp: populate_berths_def and_then_def execute_def select_lookup_def Let_def
          rows_def w0_def split: if_splits)
  from berths_loop [OF loop] obtain new where
    new: "length berth_ids = length (py_range 1 21)"
      "berth (pending (db w')) = berth (pending (db w0)) @ new"
      "map berth_fields new =
       map (\<lambda>i. (''B'' @ zero_pad 3 (str i),
                dict_of (map (\<lambda>(i, name). (name, i)) rows)
                  (if i \<le> int (length vessel_ids) then ''OCCUPIED'' else ''AVAILABLE''),
                if i \<le> int (length vessel_ids) then Some (vessel_ids ! nat (i - 1)) else None))
         (py_range 1 21)"
    by auto
  have len: "length new = 20"
    using arg_cong [OF new(3), of length] by (simp add: length_py_range_1_21)
  have old: "berth (pending (db w0)) = berth (pending (db w))"
    by (simp add: w0_def)
  show "length berth_ids = 20"
    using new(1) by (simp add: length_py_range_1_21)
  show "berths_added (lookup (pending (db w)) BerthStatus) vessel_ids (berth (pending (db w))) w'"
    unfolding berths_added_def rows_def [symmetric]
    using berths_rows [OF assms(1) [folded rows_def] assms(2) len new(3)] new(2) old
    by - (rule exI [of _ new], simp)
next
  assume calm: "\<not> aborted (db w) \<and> (\<forall>k. \<not> faults (db w) k) \<and>
          {''AVAILABLE'', ''OCCUPIED''} \<subseteq> snd ` set (lookup (pending (db w)) BerthStatus)"
  define w0 where "w0 = w\<lparr>db := (db w)\<lparr>executed := Suc (executed (db w))\<rparr>\<rparr>"
  have "\<exists>ids w'. for_each (py_range 1 21)
      (populate_berths_body (dict_of (map (\<lambda>(i, name). (name, i))
         (lookup (pending (db w)) BerthStatus))) vessel_ids) [] w0 = (Inr ids, w')"
    by (rule berths_loop_succeeds) (use calm in \<open>simp_all add: w0_def dict_of_some\<close>)
  then show "\<exists>berth_ids w'. populate_berths vessel_ids w = (Inr berth_ids, w')"
    using calm
    by (simp add: populate_berths_def and_then_def execute_def select_lookup_def Let_def w0_def)
qed

theorem berths_twenty_witness:
  "distinct (map fst (lookup (pending (db seeded_world)) BerthStatus)) \<and>
   distinct [7, 8, 9 :: nat] \<and>
   (\<exists>berth_ids w'. populate_berths [7, 8, 9] seeded_world = (Inr berth_ids, w') \<and>
      length berth_ids = 20 \<and>
      berths_added (lookup (pending (db seeded_world)) BerthStatus) [7, 8, 9]
        (berth (pending (db seeded_world))) w')"
proof -
  have h: "distinct (map fst (lookup (pending (db seeded_world)) BerthStatus))"
      "distinct [7, 8, 9 :: nat]"
    by (simp_all add: seeded_world_def seeded_tables_def no_tables_def store_def)
  have calm: "\<not> aborted (db seeded_world) \<and> (\<forall>k. \<not> faults (db seeded_world) k) \<and>
      {''AVAILABLE'', ''OCCUPIED''} \<subseteq> snd ` set (lookup (pending (db seeded_world)) BerthStatus)"
    by (simp add: seeded_world_def seeded_tables_def no_tables_def store_def)
  show ?thesis
    using berths_twenty [OF h] calm h by blast
qed

end
